theory Spec2Isabelle
  imports Main "HOL-Library.Word"
begin

section \<open>JavaScript values\<close>

text \<open>
  The adapters are JavaScript. Their data (bid objects, server responses, consent
  objects, stored items) are modelled by JSON-like values:
  \<^item> numbers are the integers and NaN. Timestamps, counters, sizes, section ids and
    hash values are integers in the source; prices and floors are only passed through.
    Integer arithmetic of the model agrees with JavaScript's doubles on the safe
    integers, so fractions, infinities and values beyond \<open>2^53\<close> are outside the model;
  \<^item> strings are lists of 8-bit characters, read as the code units \<open>0..255\<close>;
  \<^item> an object is the list of its own properties in insertion order;
  \<^item> function values are not part of \<open>jsval\<close>; the one function-valued property the
    adapters call, \<open>getFloor\<close>, is a field of its own in \<open>bid_request\<close> below.
  A thrown exception is the \<open>Inl\<close> branch of a sum.
\<close>

datatype jsnum = Fin int | NaN

datatype jsval =
    JUndefined
  | JNull
  | JBool bool
  | JNum jsnum
  | JStr string
  | JArr "jsval list"
  | JObj "(string \<times> jsval) list"

datatype error = TypeError | StorageError | NotModelled

text \<open>Sequencing of computations that may throw.\<close>

definition thenE :: "error + 'a \<Rightarrow> ('a \<Rightarrow> error + 'b) \<Rightarrow> error + 'b" where
  "thenE m f = (case m of Inl e \<Rightarrow> Inl e | Inr v \<Rightarrow> f v)"

text \<open>\<open>ToBoolean\<close>: the test of \<open>if\<close>, \<open>&&\<close>, \<open>||\<close>, \<open>!\<close> and \<open>?:\<close>.\<close>

fun truthy :: "jsval \<Rightarrow> bool" where
  "truthy JUndefined = False"
| "truthy JNull = False"
| "truthy (JBool b) = b"
| "truthy (JNum (Fin i)) = (i \<noteq> 0)"
| "truthy (JNum NaN) = False"
| "truthy (JStr s) = (s \<noteq> [])"
| "truthy (JArr xs) = True"
| "truthy (JObj ps) = True"

text \<open>The \<open>typeof\<close> operator; \<open>typeof null\<close> and \<open>typeof []\<close> are \<open>'object'\<close>.\<close>

fun typeof :: "jsval \<Rightarrow> string" where
  "typeof JUndefined = ''undefined''"
| "typeof JNull = ''object''"
| "typeof (JBool b) = ''boolean''"
| "typeof (JNum n) = ''number''"
| "typeof (JStr s) = ''string''"
| "typeof (JArr xs) = ''object''"
| "typeof (JObj ps) = ''object''"

definition nullish :: "jsval \<Rightarrow> bool" where
  "nullish v = (v = JUndefined \<or> v = JNull)"

text \<open>An own property of an object; a missing one reads as \<open>undefined\<close>.\<close>

definition lookup :: "(string \<times> jsval) list \<Rightarrow> string \<Rightarrow> jsval" where
  "lookup ps k = (case map_of ps k of None \<Rightarrow> JUndefined | Some v \<Rightarrow> v)"

text \<open>
  The property read \<open>v.k\<close>. Reading from \<open>undefined\<close> or \<open>null\<close> throws a TypeError.
  The names the adapters read are never members of \<open>Object.prototype\<close>, and of
  arrays and strings the only member they read is \<open>length\<close>, so an object answers with
  its own property, an array or string with its length, and every other read is
  \<open>undefined\<close>.
\<close>

fun read_prop :: "jsval \<Rightarrow> string \<Rightarrow> error + jsval" where
  "read_prop JUndefined k = Inl TypeError"
| "read_prop JNull k = Inl TypeError"
| "read_prop (JObj ps) k = Inr (lookup ps k)"
| "read_prop (JArr xs) k = Inr (if k = ''length'' then JNum (Fin (int (length xs))) else JUndefined)"
| "read_prop (JStr s) k = Inr (if k = ''length'' then JNum (Fin (int (length s))) else JUndefined)"
| "read_prop (JBool b) k = Inr JUndefined"
| "read_prop (JNum n) k = Inr JUndefined"

text \<open>The optional read \<open>v?.k\<close>: \<open>undefined\<close> when \<open>v\<close> is \<open>undefined\<close> or \<open>null\<close>.\<close>

definition read_opt :: "jsval \<Rightarrow> string \<Rightarrow> jsval" where
  "read_opt v k = (case read_prop v k of Inl e \<Rightarrow> JUndefined | Inr w \<Rightarrow> w)"

text \<open>
  The call \<open>v.hasOwnProperty(k)\<close>. It throws on \<open>undefined\<close> and \<open>null\<close>, and also on
  an object whose own property \<open>hasOwnProperty\<close> shadows the inherited method (the
  shadowing value is data, not a function). An array owns \<open>length\<close>; its index
  properties are not among the names the adapters ask for.
\<close>

fun hasOwnProperty :: "jsval \<Rightarrow> string \<Rightarrow> error + bool" where
  "hasOwnProperty JUndefined k = Inl TypeError"
| "hasOwnProperty JNull k = Inl TypeError"
| "hasOwnProperty (JObj ps) k =
     (if ''hasOwnProperty'' \<in> fst ` set ps then Inl TypeError else Inr (k \<in> fst ` set ps))"
| "hasOwnProperty (JArr xs) k = Inr (k = ''length'')"
| "hasOwnProperty (JStr s) k = Inr (k = ''length'')"
| "hasOwnProperty (JBool b) k = Inr False"
| "hasOwnProperty (JNum n) k = Inr False"

text \<open>The assignment \<open>o.k = v\<close> on the property list: in place, or appended.\<close>

fun assign :: "(string \<times> jsval) list \<Rightarrow> string \<Rightarrow> jsval \<Rightarrow> (string \<times> jsval) list" where
  "assign [] k v = [(k, v)]"
| "assign ((k', v') # ps) k v = (if k' = k then (k, v) # ps else (k', v') # assign ps k v)"

text \<open>\<open>delete o.k\<close> on the property list.\<close>

definition remove :: "(string \<times> jsval) list \<Rightarrow> string \<Rightarrow> (string \<times> jsval) list" where
  "remove ps k = filter (\<lambda>p. fst p \<noteq> k) ps"

subsection \<open>Numbers and strings\<close>

text \<open>Decimal digits of a natural number, most significant first.\<close>

definition digit :: "nat \<Rightarrow> char" where
  "digit d = ''0123456789'' ! d"

function dec_nat :: "nat \<Rightarrow> string" where
  "dec_nat n = (if n < 10 then [digit n] else dec_nat (n div 10) @ [digit (n mod 10)])"
  by pat_completeness auto
termination
  by (relation "measure id") auto

declare dec_nat.simps [simp del]

text \<open>\<open>Number.prototype.toString\<close> of an integer: decimal, with a minus sign.\<close>

definition dec_int :: "int \<Rightarrow> string" where
  "dec_int i = (if i < 0 then CHR ''-'' # dec_nat (nat (- i)) else dec_nat (nat i))"

text \<open>\<open>Array.prototype.join\<close> on the elements' strings.\<close>

fun join :: "string \<Rightarrow> string list \<Rightarrow> string" where
  "join sep [] = []"
| "join sep [x] = x"
| "join sep (x # y # ys) = x @ sep @ join sep (y # ys)"

text \<open>
  \<open>ToString\<close>, as string concatenation, template literals, \<open>join\<close> and
  \<open>encodeURIComponent\<close> apply it. An array is its elements joined by commas, with
  \<open>undefined\<close> and \<open>null\<close> elements empty.
\<close>

primrec ToString :: "jsval \<Rightarrow> string" where
  "ToString JUndefined = ''undefined''"
| "ToString JNull = ''null''"
| "ToString (JBool b) = (if b then ''true'' else ''false'')"
| "ToString (JNum n) = (case n of NaN \<Rightarrow> ''NaN'' | Fin i \<Rightarrow> dec_int i)"
| "ToString (JStr s) = s"
| "ToString (JArr xs) =
     join '','' (map (\<lambda>x. if x = JUndefined \<or> x = JNull then [] else ToString x) xs)"
| "ToString (JObj ps) = ''[object Object]''"

text \<open>
  \<open>ToNumber\<close>. The numeric reading of a string (\<open>StringToNumber\<close>: white space, signs,
  fractions, exponents, hexadecimal) is not modelled: it is the parameter \<open>s2n\<close>, and
  every theorem holds for each such function. Arrays and objects are first turned
  into their strings.
\<close>

fun ToNumber :: "(string \<Rightarrow> jsnum) \<Rightarrow> jsval \<Rightarrow> jsnum" where
  "ToNumber s2n JUndefined = NaN"
| "ToNumber s2n JNull = Fin 0"
| "ToNumber s2n (JBool b) = Fin (if b then 1 else 0)"
| "ToNumber s2n (JNum n) = n"
| "ToNumber s2n (JStr s) = s2n s"
| "ToNumber s2n (JArr xs) = s2n (ToString (JArr xs))"
| "ToNumber s2n (JObj ps) = s2n (ToString (JObj ps))"

text \<open>The global \<open>isNaN\<close>, which converts its argument to a number first.\<close>

definition isNaN :: "(string \<Rightarrow> jsnum) \<Rightarrow> jsval \<Rightarrow> bool" where
  "isNaN s2n v = (ToNumber s2n v = NaN)"

text \<open>\<open>a - b\<close>, and the comparisons \<open>a < b\<close> and \<open>a > b\<close> of two numbers.\<close>

fun num_sub :: "jsnum \<Rightarrow> jsnum \<Rightarrow> jsnum" where
  "num_sub (Fin a) (Fin b) = Fin (a - b)"
| "num_sub a b = NaN"

fun num_lt :: "jsnum \<Rightarrow> jsnum \<Rightarrow> bool" where
  "num_lt (Fin a) (Fin b) = (a < b)"
| "num_lt a b = False"

definition num_gt :: "jsnum \<Rightarrow> jsnum \<Rightarrow> bool" where
  "num_gt a b = num_lt b a"

text \<open>
  \<open>v + 1\<close>: numeric addition when \<open>v\<close> is a number, a boolean, \<open>null\<close> or \<open>undefined\<close>;
  string concatenation with \<open>'1'\<close> when \<open>v\<close> is a string or turns into one (arrays and
  objects).
\<close>

fun plus_one :: "jsval \<Rightarrow> jsval" where
  "plus_one (JNum (Fin i)) = JNum (Fin (i + 1))"
| "plus_one (JNum NaN) = JNum NaN"
| "plus_one JUndefined = JNum NaN"
| "plus_one JNull = JNum (Fin 1)"
| "plus_one (JBool b) = JNum (Fin (if b then 2 else 1))"
| "plus_one (JStr s) = JStr (s @ ''1'')"
| "plus_one (JArr xs) = JStr (ToString (JArr xs) @ ''1'')"
| "plus_one (JObj ps) = JStr (ToString (JObj ps) @ ''1'')"

section \<open>vidazooUtils: the string hash\<close>

text \<open>
  \<open>ToInt32\<close>, which \<open>| 0\<close> and the left operand of \<open><<\<close> apply, and \<open>h << 5\<close> on 32-bit
  integers.
\<close>

definition ToInt32 :: "int \<Rightarrow> int" where
  "ToInt32 x = sint (word_of_int x :: 32 word)"

definition shl5 :: "int \<Rightarrow> int" where
  "shl5 h = sint (push_bit 5 (word_of_int h :: 32 word))"

text \<open>One turn of the loop: \<open>h = (h << 5) - h + s.charCodeAt(i++) | 0\<close>.\<close>

definition hash_step :: "int \<Rightarrow> int \<Rightarrow> int" where
  "hash_step h c = ToInt32 (shl5 h - h + c)"

text \<open>The loop over the code units \<open>s.charCodeAt(0), ..., s.charCodeAt(l - 1)\<close>.\<close>

fun hash_loop :: "int \<Rightarrow> int list \<Rightarrow> int" where
  "hash_loop h [] = h"
| "hash_loop h (c # cs) = hash_loop (hash_step h c) cs"

definition charCodes :: "string \<Rightarrow> int list" where
  "charCodes s = map (\<lambda>c. int (of_char c)) s"

text \<open>
  \<open>hashCode(s, prefix = '_')\<close>: the prefix followed by the number as a string. First
  on a string given by its code units, which may be any 16-bit values, then on a
  string of this model.
\<close>

definition hashCode_units :: "int list \<Rightarrow> string \<Rightarrow> string" where
  "hashCode_units cs prefix = prefix @ dec_int (hash_loop 0 cs)"

definition hashCode :: "string \<Rightarrow> string \<Rightarrow> string" where
  "hashCode s prefix = hashCode_units (charCodes s) prefix"

text \<open>
  The hash as the specification words it, for comparison: \<open>hash = hash * 31 + charCode\<close>
  wrapped to a 32-bit signed integer at every step.
\<close>

definition wrap32 :: "int \<Rightarrow> int" where
  "wrap32 x = (x + 2 ^ 31) mod 2 ^ 32 - 2 ^ 31"

fun rolling31 :: "int \<Rightarrow> int list \<Rightarrow> int" where
  "rolling31 h [] = h"
| "rolling31 h (c # cs) = rolling31 (wrap32 (h * 31 + c)) cs"

section \<open>vidazooUtils: storage helpers and deal ids\<close>

text \<open>
  Modelled from the spec: the storage abstraction, a collaborator whose code is not
  among the source files: \<open>getItem(key) -> string|null\<close> and \<open>setItem(key, value)\<close>,
  either of which may fail (quota, permission). The helpers only ever see an item
  through \<open>JSON.parse\<close> and only ever write \<open>JSON.stringify\<close> of an object, so the
  model keeps for each key the value that the item's text parses to; a text that is
  not JSON stands for itself, the string, as \<open>tryParseJSON\<close> returns it.
\<close>

record storage =
  items :: "string \<Rightarrow> jsval option"
  getDataFails :: bool
  setDataFails :: bool

definition getDataFromLocalStorage :: "storage \<Rightarrow> string \<Rightarrow> error + jsval option" where
  "getDataFromLocalStorage st key =
     (if getDataFails st then Inl StorageError else Inr (items st key))"

definition setDataInLocalStorage :: "storage \<Rightarrow> string \<Rightarrow> jsval \<Rightarrow> error + storage" where
  "setDataInLocalStorage st key data =
     (if setDataFails st then Inl StorageError
      else Inr (st\<lparr>items := (items st)(key \<mapsto> data)\<rparr>))"

text \<open>
  What \<open>JSON.parse(JSON.stringify(v))\<close> makes of a value: a property whose value is
  \<open>undefined\<close> is left out, \<open>undefined\<close> in an array and NaN become \<open>null\<close>.
\<close>

primrec json_roundtrip :: "jsval \<Rightarrow> jsval" where
  "json_roundtrip JUndefined = JUndefined"
| "json_roundtrip JNull = JNull"
| "json_roundtrip (JBool b) = JBool b"
| "json_roundtrip (JNum n) = (case n of NaN \<Rightarrow> JNull | Fin i \<Rightarrow> JNum (Fin i))"
| "json_roundtrip (JStr s) = JStr s"
| "json_roundtrip (JArr xs) =
     JArr (map (\<lambda>x. if x = JUndefined then JNull else json_roundtrip x) xs)"
| "json_roundtrip (JObj ps) =
     JObj (filter (\<lambda>p. snd p \<noteq> JUndefined) (map (map_prod id json_roundtrip) ps))"

text \<open>
  \<open>tryParseJSON\<close> of what the storage returned: \<open>null\<close> (no item) parses to \<open>null\<close>, an
  item to its value.
\<close>

definition tryParseJSON :: "jsval option \<Rightarrow> jsval" where
  "tryParseJSON t = (case t of None \<Rightarrow> JNull | Some v \<Rightarrow> v)"

text \<open>
  \<open>setStorageItem(storage, key, value, timestamp)\<close>; \<open>now\<close> is what \<open>Date.now()\<close>
  returns inside it, and an omitted \<open>timestamp\<close> is \<open>undefined\<close>. The \<open>catch\<close> leaves the
  storage as it was.
\<close>

definition setStorageItem :: "int \<Rightarrow> storage \<Rightarrow> string \<Rightarrow> jsval \<Rightarrow> jsval \<Rightarrow> storage" where
  "setStorageItem now st key v timestamp =
     (let created = (if truthy timestamp then timestamp else JNum (Fin now));
          data = json_roundtrip (JObj [(''value'', v), (''created'', created)])
      in case setDataInLocalStorage st key data of Inl e \<Rightarrow> st | Inr st' \<Rightarrow> st')"

text \<open>\<open>getStorageItem(storage, key)\<close>: the \<open>catch\<close> falls through to \<open>return null\<close>.\<close>

definition getStorageItem :: "storage \<Rightarrow> string \<Rightarrow> jsval" where
  "getStorageItem st key =
     (case getDataFromLocalStorage st key of Inl e \<Rightarrow> JNull | Inr t \<Rightarrow> tryParseJSON t)"

text \<open>
  \<open>getUniqueDealId(storage, key, expiry)\<close>. \<open>now\<close> is the reading of \<open>Date.now()\<close> in
  its second line, \<open>now'\<close> the later one inside \<open>setStorageItem\<close>. The result is the
  returned id and the storage after the call.
\<close>

definition getUniqueDealId ::
  "(string \<Rightarrow> jsnum) \<Rightarrow> int \<Rightarrow> int \<Rightarrow> storage \<Rightarrow> string \<Rightarrow> int \<Rightarrow> error + jsval \<times> storage" where
  "getUniqueDealId s2n now now' st key expiry =
     (let storageKey = ''u_'' @ key;
          data = getStorageItem st storageKey
      in thenE (if truthy data then read_prop data ''value'' else Inr JUndefined) (\<lambda>v.
         thenE (if truthy data \<and> truthy v then read_prop data ''created'' else Inr JUndefined) (\<lambda>c.
           if \<not> truthy data \<or> \<not> truthy v
              \<or> num_gt (num_sub (Fin now) (ToNumber s2n c)) (Fin expiry)
           then (let uniqueId = JStr (key @ ''_'' @ dec_int now)
                 in Inr (uniqueId, setStorageItem now' st storageKey uniqueId JUndefined))
           else Inr (v, st))))"

text \<open>
  \<open>getNextDealId(storage, key, expiry)\<close>: first the body of its \<open>try\<close>, then the \<open>catch\<close>
  that returns 0. \<open>now\<close> is the reading of \<open>Date.now()\<close> in the condition, \<open>now'\<close> the one
  inside \<open>setStorageItem\<close>.
\<close>

definition getNextDealId_try ::
  "(string \<Rightarrow> jsnum) \<Rightarrow> int \<Rightarrow> int \<Rightarrow> storage \<Rightarrow> string \<Rightarrow> int \<Rightarrow> error + jsval \<times> storage" where
  "getNextDealId_try s2n now now' st key expiry =
     (let data = getStorageItem st key
      in thenE (if truthy data then read_prop data ''value'' else Inr JUndefined) (\<lambda>v.
         thenE (if truthy data \<and> truthy v then read_prop data ''created'' else Inr JUndefined) (\<lambda>c.
           let live = (truthy data \<and> truthy v
                       \<and> num_lt (num_sub (Fin now) (ToNumber s2n c)) (Fin expiry));
               currentValue = (if live then v else JNum (Fin 0));
               timestamp = (if live then c else JUndefined);
               nextValue = plus_one currentValue
           in Inr (nextValue, setStorageItem now' st key nextValue timestamp))))"

definition getNextDealId ::
  "(string \<Rightarrow> jsnum) \<Rightarrow> int \<Rightarrow> int \<Rightarrow> storage \<Rightarrow> string \<Rightarrow> int \<Rightarrow> jsval \<times> storage" where
  "getNextDealId s2n now now' st key expiry =
     (case getNextDealId_try s2n now now' st key expiry of
        Inl e \<Rightarrow> (JNum (Fin 0), st)
      | Inr r \<Rightarrow> r)"

text \<open>
  Successive calls of \<open>getNextDealId\<close> on the same key, one for each pair of clock
  readings: the returned values in order, and the storage after the last call.
\<close>

fun successive_calls ::
  "(string \<Rightarrow> jsnum) \<Rightarrow> storage \<Rightarrow> string \<Rightarrow> int \<Rightarrow> (int \<times> int) list \<Rightarrow> jsval list \<times> storage" where
  "successive_calls s2n st key expiry [] = ([], st)"
| "successive_calls s2n st key expiry (t # ts) =
     (let r = getNextDealId s2n (fst t) (snd t) st key expiry;
          rest = successive_calls s2n (snd r) key expiry ts
      in (fst r # fst rest, snd rest))"

text \<open>The \<open>{value, created}\<close> pair of a counter, as \<open>setStorageItem\<close> writes it.\<close>

definition StoredValue :: "jsval \<Rightarrow> int \<Rightarrow> jsval" where
  "StoredValue v created = JObj [(''value'', v), (''created'', JNum (Fin created))]"

text \<open>
  ``Within the expiry window'' of \<open>getUniqueDealId\<close>, as its condition tests it: at the
  clock reading \<open>now\<close>, the item stored under the derived key is not older than
  \<open>expiry\<close>.
\<close>

definition within_expiry :: "(string \<Rightarrow> jsnum) \<Rightarrow> int \<Rightarrow> storage \<Rightarrow> string \<Rightarrow> int \<Rightarrow> bool" where
  "within_expiry s2n now st key expiry =
     (\<not> num_gt (num_sub (Fin now)
              (ToNumber s2n (read_opt (getStorageItem st (''u_'' @ key)) ''created'')))
            (Fin expiry))"

section \<open>Bid requests and floors\<close>

text \<open>
  A bid request object: its data properties, and \<open>getFloor\<close> when that property is a
  function (\<open>None\<close> when the bid has no \<open>getFloor\<close> or \<open>getFloor\<close> is not a function, which
  is what \<open>isFn(bid.getFloor)\<close> tests). The floor function is taken to return a value.
\<close>

record bid_request =
  props :: "(string \<times> jsval) list"
  getFloor :: "(jsval \<Rightarrow> jsval) option"

text \<open>The argument of \<open>bid.getFloor\<close>: \<open>{currency, mediaType: '*', size: '*'}\<close>.\<close>

definition floor_query :: "string \<Rightarrow> jsval" where
  "floor_query currency =
     JObj [(''currency'', JStr currency), (''mediaType'', JStr ''*''), (''size'', JStr ''*'')]"

text \<open>
  Modelled from the spec: \<open>isPlainObject\<close> of the framework's utils.js, which is not
  among the source files; the specification's ``non-object'' result of the floor
  function. It holds of objects only, not of arrays or \<open>null\<close>.
\<close>

fun isPlainObject :: "jsval \<Rightarrow> bool" where
  "isPlainObject (JObj ps) = True"
| "isPlainObject v = False"

subsection \<open>orbidderBidAdapter\<close>

text \<open>\<open>getBidFloor(bid)\<close> of the orbidder adapter.\<close>

definition getBidFloor :: "(string \<Rightarrow> jsnum) \<Rightarrow> bid_request \<Rightarrow> error + jsval" where
  "getBidFloor s2n bid =
     (case getFloor bid of
        None \<Rightarrow> read_prop (lookup (props bid) ''params'') ''bidfloor''
      | Some f \<Rightarrow>
          (let floor = f (floor_query ''EUR'')
           in if isPlainObject floor \<and> \<not> isNaN s2n (read_opt floor ''floor'')
                 \<and> read_opt floor ''currency'' = JStr ''EUR''
              then Inr (read_opt floor ''floor'')
              else Inr JUndefined))"

text \<open>
  \<open>isBidRequestValid(bid)\<close> of the orbidder adapter. Only the first read can throw
  (when \<open>bid\<close> itself is \<open>undefined\<close> or \<open>null\<close>); \<open>bid.params.accountId\<close> and the reads
  after it are evaluated only when \<open>bid.params\<close> is truthy.
\<close>

definition orbidder_isBidRequestValid :: "jsval \<Rightarrow> error + bool" where
  "orbidder_isBidRequestValid bid =
     thenE (read_prop bid ''sizes'') (\<lambda>sizes.
       let bidId = read_opt bid ''bidId'';
           params = read_opt bid ''params'';
           accountId = read_opt params ''accountId'';
           placementId = read_opt params ''placementId'';
           keyValues = read_opt params ''keyValues''
       in Inr (truthy sizes \<and> truthy bidId \<and> truthy params
               \<and> (truthy accountId \<and> typeof accountId = ''string'')
               \<and> (truthy placementId \<and> typeof placementId = ''string'')
               \<and> (typeof keyValues = ''undefined'' \<or> typeof keyValues = ''object'')))"

text \<open>
  \<open>getHostname()\<close>. Its argument is what
  \<open>storageManager.getDataFromLocalStorage('ov_orbidder_host')\<close> does: it throws or
  returns a value.
\<close>

definition getHostname :: "error + jsval \<Rightarrow> jsval" where
  "getHostname ov =
     (case ov of
        Inl e \<Rightarrow> JStr ''https://orbidder.otto.de''
      | Inr v \<Rightarrow> if truthy v then v else JStr ''https://orbidder.otto.de'')"

text \<open>
  The assignment \<open>o.k = v\<close> on a value. The adapters are modules, hence strict code:
  assigning to a property of a primitive throws, as it does on \<open>undefined\<close> and \<open>null\<close>.
  An array with a named property is not a value of this model.
\<close>

fun assign_prop :: "jsval \<Rightarrow> string \<Rightarrow> jsval \<Rightarrow> error + jsval" where
  "assign_prop (JObj ps) k v = Inr (JObj (assign ps k v))"
| "assign_prop (JArr xs) k v = Inl NotModelled"
| "assign_prop w k v = Inl TypeError"

text \<open>The HTTP request descriptor; \<open>data\<close> is an object that may carry \<open>getFloor\<close>.\<close>

record http_request =
  url :: string
  http_method :: string
  withCredentials :: bool
  data :: bid_request

text \<open>The spread \<open>{...o}\<close> into an object under construction: one assignment per property.\<close>

fun spread :: "(string \<times> jsval) list \<Rightarrow> (string \<times> jsval) list \<Rightarrow> (string \<times> jsval) list" where
  "spread acc [] = acc"
| "spread acc (p # ps) = spread (assign acc (fst p) (snd p)) ps"

text \<open>
  The body of the \<open>map\<close> callback of \<open>buildRequests\<close> for one bid request: the HTTP
  request, and the bid request object as the callback leaves it.
\<close>

definition buildRequest ::
  "(string \<Rightarrow> jsnum) \<Rightarrow> jsval \<Rightarrow> jsval \<Rightarrow> bid_request \<Rightarrow> error + http_request \<times> bid_request" where
  "buildRequest s2n hostname bidderRequest bidRequest =
     (let refererInfo = read_opt bidderRequest ''refererInfo'';
          page = read_opt refererInfo ''page'';
          referer = (if truthy bidderRequest \<and> truthy refererInfo
                     then (if truthy page then page else JStr [])
                     else JStr []);
          mediaTypes = lookup (props bidRequest) ''mediaTypes'';
          bid1 = (if truthy (read_opt mediaTypes ''video'')
                  then (case mediaTypes of
                          JObj ms \<Rightarrow> bidRequest\<lparr>props :=
                            assign (props bidRequest) ''mediaTypes'' (JObj (remove ms ''video''))\<rparr>
                        | _ \<Rightarrow> bidRequest)
                  else bidRequest)
      in thenE (getBidFloor s2n bid1) (\<lambda>bidfloor.
         thenE (assign_prop (lookup (props bid1) ''params'') ''bidfloor'' bidfloor) (\<lambda>params.
           let bid2 = bid1\<lparr>props := assign (props bid1) ''params'' params\<rparr>;
               data0 = spread [(''v'', JStr ''v$prebid.version$''), (''pageUrl'', referer)]
                         (props bid2);
               gdprConsent = read_opt bidderRequest ''gdprConsent'';
               gdprApplies = read_opt gdprConsent ''gdprApplies'';
               data1 = (if truthy bidderRequest \<and> truthy gdprConsent
                        then assign data0 ''gdprConsent''
                               (JObj [(''consentString'', read_opt gdprConsent ''consentString''),
                                      (''consentRequired'',
                                       JBool (typeof gdprApplies = ''boolean''
                                              \<and> gdprApplies = JBool True))])
                        else data0)
           in Inr (\<lparr>url = ToString hostname @ ''/bid'',
                    http_method = ''POST'',
                    withCredentials = True,
                    data = \<lparr>props = data1, getFloor = getFloor bid2\<rparr>\<rparr>,
                   bid2))))"

text \<open>\<open>Array.prototype.map\<close> with a callback that may throw.\<close>

fun mapE :: "('a \<Rightarrow> error + 'b) \<Rightarrow> 'a list \<Rightarrow> error + 'b list" where
  "mapE f [] = Inr []"
| "mapE f (x # xs) = thenE (f x) (\<lambda>y. thenE (mapE f xs) (\<lambda>ys. Inr (y # ys)))"

text \<open>
  \<open>buildRequests(validBidRequests, bidderRequest)\<close>. The result is the list of HTTP
  requests together with the received bid request objects as they are after the call.
  \<open>convertOrtbRequestToProprietaryNative\<close> belongs to the framework's native.js, which
  is not among the source files; it is the parameter \<open>convert\<close>, which hands back
  either the very array it received (\<open>None\<close>: nothing to convert, so the callback works
  on the received objects) or a converted deep copy (\<open>Some copies\<close>: the received
  objects stay untouched).
\<close>

definition buildRequests ::
  "(string \<Rightarrow> jsnum) \<Rightarrow> (bid_request list \<Rightarrow> bid_request list option) \<Rightarrow> error + jsval \<Rightarrow>
   bid_request list \<Rightarrow> jsval \<Rightarrow> error + http_request list \<times> bid_request list" where
  "buildRequests s2n convert ov validBidRequests bidderRequest =
     (let hostname = getHostname ov
      in case convert validBidRequests of
           None \<Rightarrow>
             thenE (mapE (buildRequest s2n hostname bidderRequest) validBidRequests) (\<lambda>rs.
               Inr (map fst rs, map snd rs))
         | Some copies \<Rightarrow>
             thenE (mapE (buildRequest s2n hostname bidderRequest) copies) (\<lambda>rs.
               Inr (map fst rs, validBidRequests)))"

subsection \<open>orbidderBidAdapter: responses\<close>

text \<open>
  Modelled from the spec: the media type names \<open>BANNER\<close> and \<open>NATIVE\<close> of the
  framework's mediaTypes.js, which is not among the source files, as the
  specification's examples spell them.
\<close>

definition BANNER :: string where
  "BANNER = ''banner''"

definition NATIVE :: string where
  "NATIVE = ''native''"

text \<open>The loop \<open>for (const key of requiredKeys)\<close> of \<open>isBidResponseValid\<close>.\<close>

fun hasRequiredKeys :: "jsval \<Rightarrow> string list \<Rightarrow> error + bool" where
  "hasRequiredKeys bidResponse [] = Inr True"
| "hasRequiredKeys bidResponse (key # keys) =
     thenE (hasOwnProperty bidResponse key) (\<lambda>has.
       if \<not> has then Inr False else hasRequiredKeys bidResponse keys)"

definition isBidResponseValid :: "jsval \<Rightarrow> error + bool" where
  "isBidResponseValid bidResponse =
     (let requiredKeys = [''requestId'', ''cpm'', ''ttl'', ''creativeId'', ''netRevenue'', ''currency'']
      in thenE (read_prop bidResponse ''mediaType'') (\<lambda>mediaType.
           if mediaType = JStr BANNER
           then hasRequiredKeys bidResponse (requiredKeys @ [''width'', ''height'', ''ad''])
           else if mediaType = JStr NATIVE
           then thenE (read_prop bidResponse ''native'') (\<lambda>native.
                thenE (hasOwnProperty native ''impressionTrackers'') (\<lambda>has.
                  if \<not> has then Inr False else hasRequiredKeys bidResponse requiredKeys))
           else Inr False))"

text \<open>\<open>Array.isArray\<close>.\<close>

fun isArray :: "jsval \<Rightarrow> bool" where
  "isArray (JArr xs) = True"
| "isArray v = False"

text \<open>
  The \<open>forEach\<close> callback of \<open>interpretResponse\<close>, run over the records in order;
  \<open>bidResponses\<close> is the array built so far. An exception of the callback ends the
  loop and the call.
\<close>

fun forEach_bidResponse :: "jsval list \<Rightarrow> jsval list \<Rightarrow> error + jsval list" where
  "forEach_bidResponse bidResponses [] = Inr bidResponses"
| "forEach_bidResponse bidResponses (bidResponse # rest) =
     thenE (isBidResponseValid bidResponse) (\<lambda>valid.
       if valid
       then thenE (read_prop bidResponse ''advertiserDomains'') (\<lambda>advertiserDomains.
            thenE (if isArray advertiserDomains
                   then assign_prop bidResponse ''meta''
                          (JObj [(''advertiserDomains'', advertiserDomains)])
                   else Inr bidResponse) (\<lambda>bidResponse'.
              forEach_bidResponse (bidResponses @ [bidResponse']) rest))
       else forEach_bidResponse bidResponses rest)"

text \<open>
  \<open>interpretResponse(serverResponse)\<close>. A body that is truthy and has a positive
  \<open>length\<close> but is not an array has no \<open>forEach\<close> to call.
\<close>

definition interpretResponse :: "(string \<Rightarrow> jsnum) \<Rightarrow> jsval \<Rightarrow> error + jsval list" where
  "interpretResponse s2n serverResponse =
     thenE (read_prop serverResponse ''body'') (\<lambda>body.
       if truthy body \<and> num_gt (ToNumber s2n (read_opt body ''length'')) (Fin 0)
       then (case body of
               JArr records \<Rightarrow> forEach_bidResponse [] records
             | _ \<Rightarrow> Inl TypeError)
       else Inr [])"

subsection \<open>vidazooUtils: validity and floor\<close>

text \<open>The value of \<open>a || b || ... || z\<close>: the first truthy operand, else the last.\<close>

fun first_truthy :: "jsval list \<Rightarrow> jsval" where
  "first_truthy [] = JUndefined"
| "first_truthy [v] = v"
| "first_truthy (v # w # ws) = (if truthy v then v else first_truthy (w # ws))"

definition extractCID :: "jsval \<Rightarrow> error + jsval" where
  "extractCID params =
     thenE (read_prop params ''cId'') (\<lambda>cId.
       Inr (first_truthy (cId # map (read_opt params)
              [''CID'', ''cID'', ''CId'', ''cid'', ''ciD'', ''Cid'', ''CiD''])))"

definition extractPID :: "jsval \<Rightarrow> error + jsval" where
  "extractPID params =
     thenE (read_prop params ''pId'') (\<lambda>pId.
       Inr (first_truthy (pId # map (read_opt params)
              [''PID'', ''pID'', ''PId'', ''pid'', ''piD'', ''Pid'', ''PiD''])))"

text \<open>\<open>isBidRequestValid(bid)\<close> of vidazooUtils.\<close>

definition vidazoo_isBidRequestValid :: "jsval \<Rightarrow> error + bool" where
  "vidazoo_isBidRequestValid bid =
     thenE (read_prop bid ''params'') (\<lambda>p.
       let params = (if truthy p then p else JObj [])
       in thenE (extractCID params) (\<lambda>cid.
            if truthy cid then thenE (extractPID params) (\<lambda>pid. Inr (truthy pid))
            else Inr False))"

text \<open>
  The floor of \<open>buildRequestData\<close>: the value its \<open>data.bidFloor\<close> gets, from
  \<open>let {bidFloor} = params\<close> and the block \<open>if (isFn(bid.getFloor)) { ... }\<close>.
\<close>

definition buildRequestData_bidFloor :: "bid_request \<Rightarrow> error + jsval" where
  "buildRequestData_bidFloor bid =
     thenE (read_prop (lookup (props bid) ''params'') ''bidFloor'') (\<lambda>bidFloor.
       case getFloor bid of
         None \<Rightarrow> Inr bidFloor
       | Some f \<Rightarrow>
           (let floorInfo = f (floor_query ''USD'')
            in thenE (read_prop floorInfo ''currency'') (\<lambda>currency.
                 if currency = JStr ''USD'' then read_prop floorInfo ''floor''
                 else Inr bidFloor)))"

section \<open>vidazooUtils: user syncs\<close>

text \<open>
  Modelled from the spec: \<open>deepAccess\<close> of the framework's utils.js, which is not among
  the source files. It reads a path of property names and gives \<open>undefined\<close> as soon as
  the object to read from is falsy; it never throws.
\<close>

fun deepAccess :: "jsval \<Rightarrow> string list \<Rightarrow> jsval" where
  "deepAccess obj [] = obj"
| "deepAccess obj (k # ks) = deepAccess (if truthy obj then read_opt obj k else JUndefined) ks"

text \<open>
  Strict equality \<open>===\<close> of two values that were obtained separately: by value on
  primitives, with NaN equal to nothing; two objects or arrays are different objects.
\<close>

fun strict_eq :: "jsval \<Rightarrow> jsval \<Rightarrow> bool" where
  "strict_eq JUndefined JUndefined = True"
| "strict_eq JNull JNull = True"
| "strict_eq (JBool a) (JBool b) = (a = b)"
| "strict_eq (JNum (Fin a)) (JNum (Fin b)) = (a = b)"
| "strict_eq (JStr a) (JStr b) = (a = b)"
| "strict_eq v w = False"

text \<open>
  Modelled from the spec: \<open>filter(uniques)\<close>, the deduplication of the campaign ids,
  with \<open>uniques\<close> of utils.js (not among the source files) keeping an element when
  \<open>indexOf\<close> finds it at its own index: no earlier element is strictly equal to it,
  and it is not NaN, which \<open>indexOf\<close> never finds. \<open>seen\<close> holds the elements before the
  current one.
\<close>

fun uniques_from :: "jsval list \<Rightarrow> jsval list \<Rightarrow> jsval list" where
  "uniques_from seen [] = []"
| "uniques_from seen (x # xs) =
     (if list_ex (\<lambda>y. strict_eq y x) seen \<or> x = JNum NaN
      then uniques_from (seen @ [x]) xs
      else x # uniques_from (seen @ [x]) xs)"

definition uniques :: "jsval list \<Rightarrow> jsval list" where
  "uniques xs = uniques_from [] xs"

text \<open>
  \<open>encodeURIComponent\<close> on a string of code units below 256: letters, digits and
  \<open>- _ . ! ~ * ' ( )\<close> stay; every other character becomes the bytes of its UTF-8
  encoding, each as \<open>%\<close> and two upper-case hexadecimal digits.
\<close>

definition hex_digit :: "nat \<Rightarrow> char" where
  "hex_digit d = ''0123456789ABCDEF'' ! d"

definition percent :: "nat \<Rightarrow> string" where
  "percent byte = [CHR ''%'', hex_digit (byte div 16), hex_digit (byte mod 16)]"

definition unreserved :: "char \<Rightarrow> bool" where
  "unreserved c =
     (c \<in> set ''ABCDEFGHIJKLMNOPQRSTUVWXYZabcdefghijklmnopqrstuvwxyz0123456789-_.!~*()''
      \<or> c = CHR 0x27)"

definition encode_char :: "char \<Rightarrow> string" where
  "encode_char c =
     (let n = of_char c :: nat
      in if unreserved c then [c]
         else if n < 128 then percent n
         else percent (192 + n div 64) @ percent (128 + n mod 64))"

definition encodeURIComponent :: "string \<Rightarrow> string" where
  "encodeURIComponent s = concat (map encode_char s)"

text \<open>A sync descriptor \<open>{type, url}\<close>.\<close>

record user_sync =
  sync_type :: string
  sync_url :: string

text \<open>
  \<open>createUserSyncGetter(options)\<close> applied to
  \<open>(syncOptions, responses, gdprConsent, uspConsent, gppConsent)\<close>. An argument that is
  left out is \<open>undefined\<close> and gets its default; \<open>responses\<close> is an array. Destructuring
  reads properties, so it throws on \<open>null\<close>. \<open>options.iframeSyncUrl\<close> and
  \<open>options.imageSyncUrl\<close> are read only when the flag before \<open>&&\<close> is truthy, and
  \<open>applicableSections.join\<close> exists only when \<open>applicableSections\<close> is an array.
\<close>

definition createUserSyncGetter ::
  "jsval \<Rightarrow> jsval \<Rightarrow> jsval list \<Rightarrow> jsval \<Rightarrow> jsval \<Rightarrow> jsval \<Rightarrow> error + user_sync list" where
  "createUserSyncGetter options0 syncOptions responses gdprConsent0 uspConsent0 gppConsent0 =
     (let options = (if options0 = JUndefined
                     then JObj [(''iframeSyncUrl'', JStr []), (''imageSyncUrl'', JStr [])]
                     else options0);
          gdprConsent = (if gdprConsent0 = JUndefined then JObj [] else gdprConsent0);
          uspConsent = (if uspConsent0 = JUndefined then JStr [] else uspConsent0);
          gppConsent = (if gppConsent0 = JUndefined then JObj [] else gppConsent0)
      in thenE (read_prop syncOptions ''iframeEnabled'') (\<lambda>iframeEnabled.
         thenE (read_prop syncOptions ''pixelEnabled'') (\<lambda>pixelEnabled.
         thenE (read_prop gdprConsent ''gdprApplies'') (\<lambda>gdprApplies.
         thenE (read_prop gdprConsent ''consentString'') (\<lambda>consentString0.
         thenE (read_prop gppConsent ''gppString'') (\<lambda>gppString.
         thenE (read_prop gppConsent ''applicableSections'') (\<lambda>applicableSections.
           let consentString = (if consentString0 = JUndefined then JStr [] else consentString0);
               cidArr = uniques
                          (map (\<lambda>resp. read_opt (read_opt resp ''body'') ''cid'')
                             (filter (\<lambda>resp. truthy (deepAccess resp [''body'', ''cid'']))
                                responses));
               params0 = ''?cid='' @ encodeURIComponent (ToString (JArr cidArr))
                  @ ''&gdpr='' @ (if truthy gdprApplies then ''1'' else ''0'')
                  @ ''&gdpr_consent=''
                  @ encodeURIComponent
                      (ToString (if truthy consentString then consentString else JStr []))
                  @ ''&us_privacy=''
                  @ encodeURIComponent
                      (ToString (if truthy uspConsent then uspConsent else JStr []))
           in thenE (if truthy gppString \<and> truthy (read_opt applicableSections ''length'')
                     then (case applicableSections of
                             JArr sections \<Rightarrow>
                               Inr (params0 @ ''&gpp='' @ encodeURIComponent (ToString gppString)
                                    @ ''&gpp_sid=''
                                    @ encodeURIComponent (ToString (JArr sections)))
                           | _ \<Rightarrow> Inl TypeError)
                     else Inr params0) (\<lambda>params.
              thenE (if truthy iframeEnabled then read_prop options ''iframeSyncUrl''
                     else Inr JUndefined) (\<lambda>iframeSyncUrl.
              thenE (if truthy pixelEnabled then read_prop options ''imageSyncUrl''
                     else Inr JUndefined) (\<lambda>imageSyncUrl.
                Inr ((if truthy iframeEnabled \<and> truthy iframeSyncUrl
                      then [\<lparr>sync_type = ''iframe'',
                             sync_url = ToString iframeSyncUrl @ ''/'' @ params\<rparr>]
                      else [])
                     @ (if truthy pixelEnabled \<and> truthy imageSyncUrl
                        then [\<lparr>sync_type = ''image'',
                               sync_url = ToString imageSyncUrl @ ''/'' @ params\<rparr>]
                        else []))))))))))))"

text \<open>
  Reading a query string \<open>?n1=v1&n2=v2...\<close> back: the text after the question mark is
  cut at every \<open>&\<close>, and each piece at its first \<open>=\<close>, into a name and a value.
\<close>

fun split_on :: "char \<Rightarrow> string \<Rightarrow> string list" where
  "split_on c [] = [[]]"
| "split_on c (x # xs) =
     (if x = c then [] # split_on c xs
      else (case split_on c xs of [] \<Rightarrow> [[x]] | w # ws \<Rightarrow> (x # w) # ws))"

definition query_params :: "string \<Rightarrow> (string \<times> string) list" where
  "query_params q =
     map (\<lambda>piece. (takeWhile (\<lambda>x. x \<noteq> CHR ''='') piece,
                    tl (dropWhile (\<lambda>x. x \<noteq> CHR ''='') piece)))
       (split_on (CHR ''&'') (tl q))"

section \<open>Notions used to state the properties\<close>

text \<open>The spellings under which \<open>extractCID\<close> and \<open>extractPID\<close> accept the two ids.\<close>

definition cid_names :: "string list" where
  "cid_names = [''cId'', ''CID'', ''cID'', ''CId'', ''cid'', ''ciD'', ''Cid'', ''CiD'']"

definition pid_names :: "string list" where
  "pid_names = [''pId'', ''PID'', ''pID'', ''PId'', ''pid'', ''piD'', ''Pid'', ''PiD'']"

text \<open>
  What the \<open>forEach\<close> callback of \<open>interpretResponse\<close> makes of a valid record: when
  its \<open>advertiserDomains\<close> is an array, the property \<open>meta\<close> is set to the new object
  \<open>{advertiserDomains}\<close>; otherwise the record is as it was.
\<close>

definition with_meta :: "jsval \<Rightarrow> jsval" where
  "with_meta r =
     (case r of
        JObj ps \<Rightarrow>
          if isArray (lookup ps ''advertiserDomains'')
          then JObj (assign ps ''meta'' (JObj [(''advertiserDomains'', lookup ps ''advertiserDomains'')]))
          else r
      | _ \<Rightarrow> r)"

text \<open>The banner record of the specification's example.\<close>

definition valid_banner :: jsval where
  "valid_banner =
     JObj [(''requestId'', JStr ''1''), (''cpm'', JNum (Fin 1)), (''ttl'', JNum (Fin 60)),
           (''creativeId'', JStr ''c''), (''netRevenue'', JBool True), (''currency'', JStr ''EUR''),
           (''mediaType'', JStr ''banner''), (''width'', JNum (Fin 300)),
           (''height'', JNum (Fin 250)), (''ad'', JStr ''<div/>'')]"

text \<open>
  A bid request object \<open>b'\<close> is \<open>b\<close> except for the floor and the video media type: the
  same \<open>getFloor\<close>, the same property names in the same order, the same values but
  under \<open>params\<close> and \<open>mediaTypes\<close>; \<open>params\<close> differs at most in \<open>bidfloor\<close>, which is
  the floor \<open>getBidFloor\<close> computes for \<open>b\<close>; \<open>mediaTypes\<close> differs at most in \<open>video\<close>,
  which is gone if it was truthy.
\<close>

definition same_but_floor_and_video :: "(string \<Rightarrow> jsnum) \<Rightarrow> bid_request \<Rightarrow> bid_request \<Rightarrow> bool" where
  "same_but_floor_and_video s2n b b' =
     (getFloor b' = getFloor b
      \<and> map fst (props b') = map fst (props b)
      \<and> (\<forall>k. k \<noteq> ''params'' \<and> k \<noteq> ''mediaTypes'' \<longrightarrow> lookup (props b') k = lookup (props b) k)
      \<and> (\<forall>k. k \<noteq> ''bidfloor'' \<longrightarrow>
            read_opt (lookup (props b') ''params'') k = read_opt (lookup (props b) ''params'') k)
      \<and> Inr (read_opt (lookup (props b') ''params'') ''bidfloor'') = getBidFloor s2n b
      \<and> (\<forall>k. k \<noteq> ''video'' \<longrightarrow>
            read_opt (lookup (props b') ''mediaTypes'') k
              = read_opt (lookup (props b) ''mediaTypes'') k)
      \<and> read_opt (lookup (props b') ''mediaTypes'') ''video''
          = (if truthy (read_opt (lookup (props b) ''mediaTypes'') ''video'') then JUndefined
             else read_opt (lookup (props b) ''mediaTypes'') ''video''))"

text \<open>A valid bid request with a banner and a video media type.\<close>

definition video_bid :: bid_request where
  "video_bid =
     \<lparr>props = [(''bidId'', JStr ''1''), (''sizes'', JArr [JArr [JNum (Fin 300), JNum (Fin 250)]]),
               (''params'', JObj [(''accountId'', JStr ''a''), (''placementId'', JStr ''p'')]),
               (''mediaTypes'', JObj [(''banner'', JObj []),
                                      (''video'', JObj [(''context'', JStr ''instream'')])])],
      getFloor = None\<rparr>"

text \<open>
  The campaign ids observed in the responses, deduplicated: the truthy \<open>body.cid\<close>
  values in order, each kept at its first occurrence.
\<close>

definition campaign_ids :: "jsval list \<Rightarrow> jsval list" where
  "campaign_ids responses =
     uniques (filter truthy (map (\<lambda>resp. deepAccess resp [''body'', ''cid'']) responses))"

text \<open>\<open>v || ''\<close> as a string.\<close>

definition or_empty :: "jsval \<Rightarrow> string" where
  "or_empty v = ToString (if truthy v then v else JStr [])"

text \<open>
  The parameters the sync URLs are to carry: the comma-joined campaign ids, the GDPR
  flag, the consent string and the US-privacy string, and the GPP string with the
  comma-joined applicable sections exactly when there is a GPP string and the section
  list is a non-empty array. Every value is percent-encoded.
\<close>

definition sync_query_params :: "jsval list \<Rightarrow> jsval \<Rightarrow> jsval \<Rightarrow> jsval \<Rightarrow> (string \<times> string) list" where
  "sync_query_params responses gdprConsent uspConsent gppConsent =
     [(''cid'', encodeURIComponent (ToString (JArr (campaign_ids responses)))),
      (''gdpr'', if truthy (read_opt gdprConsent ''gdprApplies'') then ''1'' else ''0''),
      (''gdpr_consent'', encodeURIComponent (or_empty (read_opt gdprConsent ''consentString''))),
      (''us_privacy'', encodeURIComponent (or_empty uspConsent))]
     @ (if truthy (read_opt gppConsent ''gppString'')
           \<and> (\<exists>sections. read_opt gppConsent ''applicableSections'' = JArr sections
                           \<and> sections \<noteq> [])
        then [(''gpp'', encodeURIComponent (ToString (read_opt gppConsent ''gppString''))),
              (''gpp_sid'',
               encodeURIComponent (ToString (read_opt gppConsent ''applicableSections'')))]
        else [])"

text \<open>Sync options with one image URL, and four responses with two distinct ids.\<close>

definition example_options :: jsval where
  "example_options = JObj [(''imageSyncUrl'', JStr ''https://sync.example.com/api/sync/image'')]"

definition example_responses :: "jsval list" where
  "example_responses =
     [JObj [(''body'', JObj [(''cid'', JStr ''c1'')])],
      JObj [(''body'', JObj [(''cid'', JStr ''c 2'')])],
      JObj [(''body'', JObj [(''cid'', JStr ''c1'')])],
      JObj [(''body'', JObj [])]]"

section \<open>Theorems\<close>

subsection \<open>Storage helpers and deal ids\<close>

lemma thenE_Inr [simp]: "thenE (Inr v) f = f v"
  by (simp add: thenE_def)

lemma thenE_Inl [simp]: "thenE (Inl e) f = Inl e"
  by (simp add: thenE_def)

lemma getStorageItem_works:
  "\<not> getDataFails st \<Longrightarrow> getStorageItem st key = (case items st key of None \<Rightarrow> JNull | Some v \<Rightarrow> v)"
  by (simp add: getStorageItem_def getDataFromLocalStorage_def tryParseJSON_def)

lemma getStorageItem_fails: "getDataFails st \<Longrightarrow> getStorageItem st key = JNull"
  by (simp add: getStorageItem_def getDataFromLocalStorage_def)

lemma setStorageItem_works:
  "\<not> setDataFails st \<Longrightarrow>
   setStorageItem now st key v ts =
     st\<lparr>items := (items st)(key \<mapsto>
        json_roundtrip (JObj [(''value'', v), (''created'', if truthy ts then ts else JNum (Fin now))]))\<rparr>"
  by (simp add: setStorageItem_def setDataInLocalStorage_def Let_def)

lemma setStorageItem_fails: "setDataFails st \<Longrightarrow> setStorageItem now st key v ts = st"
  by (simp add: setStorageItem_def setDataInLocalStorage_def Let_def)

lemma getNextDealId_absent:
  assumes "\<not> getDataFails st" "\<not> setDataFails st" "items st key = None"
  shows "getNextDealId s2n now now' st key expiry =
    (JNum (Fin 1), st\<lparr>items := (items st)(key \<mapsto> StoredValue (JNum (Fin 1)) now')\<rparr>)"
  using assms
  by (simp add: getNextDealId_def getNextDealId_try_def getStorageItem_works setStorageItem_works StoredValue_def Let_def)

lemma getNextDealId_live:
  assumes "\<not> getDataFails st" "\<not> setDataFails st" "items st key = Some (JObj ps)"
    "lookup ps ''value'' = JNum (Fin v)" "lookup ps ''created'' = JNum (Fin c)"
    "v \<noteq> 0" "c \<noteq> 0" "now - c < expiry"
  shows "getNextDealId s2n now now' st key expiry =
    (JNum (Fin (v + 1)), st\<lparr>items := (items st)(key \<mapsto> StoredValue (JNum (Fin (v + 1))) c)\<rparr>)"
  using assms
  by (simp add: getNextDealId_def getNextDealId_try_def getStorageItem_works setStorageItem_works StoredValue_def Let_def)

lemma getNextDealId_expired:
  assumes "\<not> getDataFails st" "\<not> setDataFails st" "items st key = Some (JObj ps)"
    "lookup ps ''created'' = JNum (Fin c)" "\<not> now - c < expiry"
  shows "getNextDealId s2n now now' st key expiry =
    (JNum (Fin 1), st\<lparr>items := (items st)(key \<mapsto> StoredValue (JNum (Fin 1)) now')\<rparr>)"
  using assms
  by (simp add: getNextDealId_def getNextDealId_try_def getStorageItem_works setStorageItem_works StoredValue_def Let_def)

lemma successive_live:
  assumes "\<not> getDataFails st" "\<not> setDataFails st"
    "items st key = Some (StoredValue (JNum (Fin v)) c)" "0 < v" "c \<noteq> 0"
    "\<forall>t \<in> set ts. fst t - c < expiry"
  shows "fst (successive_calls s2n st key expiry ts) = map (\<lambda>i. JNum (Fin i)) [v + 1..v + int (length ts)]
    \<and> items (snd (successive_calls s2n st key expiry ts)) key
        = Some (StoredValue (JNum (Fin (v + int (length ts)))) c)
    \<and> \<not> getDataFails (snd (successive_calls s2n st key expiry ts))
    \<and> \<not> setDataFails (snd (successive_calls s2n st key expiry ts))"
  using assms
proof (induction ts arbitrary: st v)
  case Nil
  then show ?case by simp
next
  case (Cons t ts)
  let ?st' = "st\<lparr>items := (items st)(key \<mapsto> StoredValue (JNum (Fin (v + 1))) c)\<rparr>"
  have step: "getNextDealId s2n (fst t) (snd t) st key expiry = (JNum (Fin (v + 1)), ?st')"
    using Cons.prems
    by (intro getNextDealId_live [where ps = "[(''value'', JNum (Fin v)), (''created'', JNum (Fin c))]"])
       (simp_all add: StoredValue_def lookup_def)
  have IH: "fst (successive_calls s2n ?st' key expiry ts)
        = map (\<lambda>i. JNum (Fin i)) [v + 1 + 1..v + 1 + int (length ts)]
    \<and> items (snd (successive_calls s2n ?st' key expiry ts)) key
        = Some (StoredValue (JNum (Fin (v + 1 + int (length ts)))) c)
    \<and> \<not> getDataFails (snd (successive_calls s2n ?st' key expiry ts))
    \<and> \<not> setDataFails (snd (successive_calls s2n ?st' key expiry ts))"
    using Cons.prems by (intro Cons.IH) simp_all
  have len: "v + int (length (t # ts)) = v + 1 + int (length ts)"
    by simp
  have upto: "[v + 1..v + 1 + int (length ts)] = (v + 1) # [v + 1 + 1..v + 1 + int (length ts)]"
    by (rule upto_rec1) simp
  have r: "successive_calls s2n st key expiry (t # ts)
      = (JNum (Fin (v + 1)) # fst (successive_calls s2n ?st' key expiry ts),
         snd (successive_calls s2n ?st' key expiry ts))"
    by (simp add: step Let_def)
  show ?case
    unfolding r len upto using IH by simp
qed

lemma successive_from_empty:
  fixes ts :: "(int \<times> int) list"
  assumes "\<not> getDataFails st" and "\<not> setDataFails st"
    and "items st key = None" and "b \<noteq> 0" and "\<forall>t \<in> set ts. fst t - b < expiry"
  shows "fst (successive_calls s2n st key expiry ((a, b) # ts))
           = map (\<lambda>i. JNum (Fin i)) [1..1 + int (length ts)]"
    and "\<not> a' - b < expiry \<Longrightarrow>
         fst (getNextDealId s2n a' b'
                (snd (successive_calls s2n st key expiry ((a, b) # ts))) key expiry)
           = JNum (Fin 1)"
proof -
  let ?st1 = "st\<lparr>items := (items st)(key \<mapsto> StoredValue (JNum (Fin 1)) b)\<rparr>"
  have first: "getNextDealId s2n a b st key expiry = (JNum (Fin 1), ?st1)"
    using assms by (intro getNextDealId_absent) simp_all
  have rest: "fst (successive_calls s2n ?st1 key expiry ts)
        = map (\<lambda>i. JNum (Fin i)) [1 + 1..1 + int (length ts)]
      \<and> items (snd (successive_calls s2n ?st1 key expiry ts)) key
        = Some (StoredValue (JNum (Fin (1 + int (length ts)))) b)
      \<and> \<not> getDataFails (snd (successive_calls s2n ?st1 key expiry ts))
      \<and> \<not> setDataFails (snd (successive_calls s2n ?st1 key expiry ts))"
    using assms by (intro successive_live) simp_all
  have r: "successive_calls s2n st key expiry ((a, b) # ts)
      = (JNum (Fin 1) # fst (successive_calls s2n ?st1 key expiry ts),
         snd (successive_calls s2n ?st1 key expiry ts))"
    by (simp add: first Let_def)
  have upto: "[1..1 + int (length ts)] = 1 # [1 + 1..1 + int (length ts)]"
    by (rule upto_rec1) simp
  show "fst (successive_calls s2n st key expiry ((a, b) # ts))
      = map (\<lambda>i. JNum (Fin i)) [1..1 + int (length ts)]"
    unfolding r upto using rest by simp
  assume late: "\<not> a' - b < expiry"
  have "getNextDealId s2n a' b' (snd (successive_calls s2n ?st1 key expiry ts)) key expiry
      = (JNum (Fin 1), (snd (successive_calls s2n ?st1 key expiry ts))
           \<lparr>items := (items (snd (successive_calls s2n ?st1 key expiry ts)))
                       (key \<mapsto> StoredValue (JNum (Fin 1)) b')\<rparr>)"
    using rest late
    by (intro getNextDealId_expired
          [where ps = "[(''value'', JNum (Fin (1 + int (length ts)))), (''created'', JNum (Fin b))]"
             and c = b])
       (simp_all add: StoredValue_def lookup_def)
  then show "fst (getNextDealId s2n a' b'
                (snd (successive_calls s2n st key expiry ((a, b) # ts))) key expiry)
           = JNum (Fin 1)"
    unfolding r by simp
qed

text \<open>
  C4. With a working storage, a call of \<open>getNextDealId\<close> reads the \<open>{value, created}\<close>
  pair under the key. If there is no item, or the pair is expired (\<open>now - created\<close> is
  not below the expiry), the counter counts as 0: the call returns 1 and stores 1 with
  the current clock reading. Otherwise it returns the stored value plus 1 and stores
  it under the original creation time. The pairs are those the function writes: the
  value is a number other than 0 and the creation time a clock reading other than 0
  (the condition tests both for truthiness). Consequently, from an empty storage, the
  calls made while \<open>now - created\<close> stays below the expiry return 1, 2, 3, ... in
  order, and the first call after that returns 1 again.
\<close>

theorem getNextDealId_counts_within_expiry:
  assumes "\<not> getDataFails st" and "\<not> setDataFails st"
  shows "(items st key = None \<longrightarrow>
            getNextDealId s2n now now' st key expiry =
              (JNum (Fin 1), st\<lparr>items := (items st)(key \<mapsto> StoredValue (JNum (Fin 1)) now')\<rparr>))
    \<and> (\<forall>ps v c. items st key = Some (JObj ps) \<and> lookup ps ''value'' = JNum (Fin v)
           \<and> lookup ps ''created'' = JNum (Fin c) \<and> v \<noteq> 0 \<and> c \<noteq> 0 \<and> now - c < expiry \<longrightarrow>
            getNextDealId s2n now now' st key expiry =
              (JNum (Fin (v + 1)),
               st\<lparr>items := (items st)(key \<mapsto> StoredValue (JNum (Fin (v + 1))) c)\<rparr>))
    \<and> (\<forall>ps c. items st key = Some (JObj ps) \<and> lookup ps ''created'' = JNum (Fin c)
           \<and> \<not> now - c < expiry \<longrightarrow>
            getNextDealId s2n now now' st key expiry =
              (JNum (Fin 1), st\<lparr>items := (items st)(key \<mapsto> StoredValue (JNum (Fin 1)) now')\<rparr>))
    \<and> (\<forall>a b ts. items st key = None \<and> b \<noteq> 0 \<and> (\<forall>t \<in> set ts. fst t - b < expiry) \<longrightarrow>
            fst (successive_calls s2n st key expiry ((a, b) # ts))
              = map (\<lambda>i. JNum (Fin i)) [1..1 + int (length ts)]
          \<and> (\<forall>a' b'. \<not> a' - b < expiry \<longrightarrow>
                fst (getNextDealId s2n a' b'
                       (snd (successive_calls s2n st key expiry ((a, b) # ts))) key expiry)
                  = JNum (Fin 1)))"
proof -
  have absent: "items st key = None \<longrightarrow>
            getNextDealId s2n now now' st key expiry =
              (JNum (Fin 1), st\<lparr>items := (items st)(key \<mapsto> StoredValue (JNum (Fin 1)) now')\<rparr>)"
    using assms by (simp add: getNextDealId_absent)
  have live: "\<forall>ps v c. items st key = Some (JObj ps) \<and> lookup ps ''value'' = JNum (Fin v)
           \<and> lookup ps ''created'' = JNum (Fin c) \<and> v \<noteq> 0 \<and> c \<noteq> 0 \<and> now - c < expiry \<longrightarrow>
            getNextDealId s2n now now' st key expiry =
              (JNum (Fin (v + 1)),
               st\<lparr>items := (items st)(key \<mapsto> StoredValue (JNum (Fin (v + 1))) c)\<rparr>)"
    using assms by (auto intro: getNextDealId_live)
  have expired: "\<forall>ps c. items st key = Some (JObj ps) \<and> lookup ps ''created'' = JNum (Fin c)
           \<and> \<not> now - c < expiry \<longrightarrow>
            getNextDealId s2n now now' st key expiry =
              (JNum (Fin 1), st\<lparr>items := (items st)(key \<mapsto> StoredValue (JNum (Fin 1)) now')\<rparr>)"
    using assms by (auto intro: getNextDealId_expired)
  have run: "\<forall>a b ts. items st key = None \<and> b \<noteq> 0 \<and> (\<forall>t \<in> set ts. fst t - b < expiry) \<longrightarrow>
            fst (successive_calls s2n st key expiry ((a, b) # ts))
              = map (\<lambda>i. JNum (Fin i)) [1..1 + int (length ts)]
          \<and> (\<forall>a' b'. \<not> a' - b < expiry \<longrightarrow>
                fst (getNextDealId s2n a' b'
                       (snd (successive_calls s2n st key expiry ((a, b) # ts))) key expiry)
                  = JNum (Fin 1))"
    using assms by (auto simp add: successive_from_empty simp del: successive_calls.simps)
  show ?thesis
    using absent live expired run by (intro conjI)
qed

theorem getNextDealId_counts_within_expiry_witness:
  "fst (successive_calls (\<lambda>s. NaN) \<lparr>items = Map.empty, getDataFails = False, setDataFails = False\<rparr>
          ''k'' 900000 [(1000, 1000), (2000, 2001), (3000, 3002)])
     = [JNum (Fin 1), JNum (Fin 2), JNum (Fin 3)]
   \<and> fst (getNextDealId (\<lambda>s. NaN) 901000 901000
          (snd (successive_calls (\<lambda>s. NaN)
             \<lparr>items = Map.empty, getDataFails = False, setDataFails = False\<rparr>
             ''k'' 900000 [(1000, 1000), (2000, 2001), (3000, 3002)])) ''k'' 900000)
     = JNum (Fin 1)"
proof -
  have works: "\<not> getDataFails \<lparr>items = Map.empty, getDataFails = False, setDataFails = False\<rparr>"
    "\<not> setDataFails \<lparr>items = Map.empty, getDataFails = False, setDataFails = False\<rparr>"
    by simp_all
  have window: "items \<lparr>items = Map.empty, getDataFails = False, setDataFails = False\<rparr> ''k'' = None
      \<and> (1000 :: int) \<noteq> 0 \<and> (\<forall>t \<in> set [(2000, 2001), (3000, 3002 :: int)]. fst t - 1000 < (900000 :: int))"
    by simp
  have late: "\<not> (901000 :: int) - 1000 < 900000"
    by simp
  note run = getNextDealId_counts_within_expiry [OF works, of "''k''" "\<lambda>s. NaN" 0 0 900000,
     THEN conjunct2, THEN conjunct2, THEN conjunct2, rule_format,
     where a = 1000 and b = 1000 and ts = "[(2000, 2001), (3000, 3002)]", OF window]
  from run [THEN conjunct1] run [THEN conjunct2, rule_format, OF late, of 901000]
  show ?thesis by (simp add: upto.simps del: successive_calls.simps)
qed

lemma read_prop_truthy: "truthy v \<Longrightarrow> \<exists>w. read_prop v k = Inr w"
  by (cases v) simp_all

lemma getNextDealId_try_returns:
  "\<exists>r. getNextDealId_try s2n now now' st key expiry = Inr r"
proof -
  let ?data = "getStorageItem st key"
  obtain v where v: "(if truthy ?data then read_prop ?data ''value'' else Inr JUndefined) = Inr v"
    using read_prop_truthy [of ?data "''value''"] by (cases "truthy ?data") auto
  obtain c where c: "(if truthy ?data \<and> truthy v then read_prop ?data ''created'' else Inr JUndefined) = Inr c"
    using read_prop_truthy [of ?data "''created''"] by (cases "truthy ?data \<and> truthy v") auto
  show ?thesis
    apply (simp only: getNextDealId_try_def Let_def)
    apply (simp only: v thenE_Inr)
    apply (simp only: c thenE_Inr)
    apply simp
    done
qed

lemma getNextDealId_read_fails:
  "getDataFails st \<Longrightarrow>
   getNextDealId s2n now now' st key expiry = (JNum (Fin 1), setStorageItem now' st key (JNum (Fin 1)) JUndefined)"
  by (simp add: getNextDealId_def getNextDealId_try_def getStorageItem_fails Let_def)

lemma getStorageItem_flag: "getStorageItem (st\<lparr>setDataFails := b\<rparr>) key = getStorageItem st key"
  by (simp add: getStorageItem_def getDataFromLocalStorage_def)

lemma getNextDealId_write_fails:
  assumes "setDataFails st"
  shows "getNextDealId s2n now now' st key expiry =
     (fst (getNextDealId s2n now now' (st\<lparr>setDataFails := False\<rparr>) key expiry), st)"
proof -
  let ?data = "getStorageItem st key"
  obtain v where v: "(if truthy ?data then read_prop ?data ''value'' else Inr JUndefined) = Inr v"
    using read_prop_truthy [of ?data "''value''"] by (cases "truthy ?data") auto
  obtain c where c: "(if truthy ?data \<and> truthy v then read_prop ?data ''created'' else Inr JUndefined) = Inr c"
    using read_prop_truthy [of ?data "''created''"] by (cases "truthy ?data \<and> truthy v") auto
  show ?thesis
    apply (simp only: getNextDealId_def getNextDealId_try_def Let_def getStorageItem_flag)
    apply (simp only: v thenE_Inr)
    apply (simp only: c thenE_Inr)
    apply (simp add: setStorageItem_fails assms)
    done
qed

text \<open>
  C5 (amended). When a storage operation fails, \<open>getNextDealId\<close> does not propagate the
  exception: nothing is thrown even inside its \<open>try\<close>, because \<open>getStorageItem\<close> and
  \<open>setStorageItem\<close> catch the failure themselves. But it does not return 0. A failing
  read counts as a missing item, so the call returns 1; when the write fails, the call
  returns what it would return with a working write, and the storage stays as it was.
\<close>

theorem getNextDealId_storage_failure:
  assumes "getDataFails st \<or> setDataFails st"
  shows "(\<exists>r. getNextDealId_try s2n now now' st key expiry = Inr r)
    \<and> (getDataFails st \<longrightarrow> fst (getNextDealId s2n now now' st key expiry) = JNum (Fin 1))
    \<and> (setDataFails st \<longrightarrow>
          getNextDealId s2n now now' st key expiry =
            (fst (getNextDealId s2n now now' (st\<lparr>setDataFails := False\<rparr>) key expiry), st))"
  using getNextDealId_try_returns [of s2n now now' st key expiry]
  by (simp add: getNextDealId_read_fails getNextDealId_write_fails)

text \<open>
  C5 as claimed fails: with a storage whose reads and writes both throw, the call
  returns 1, not 0.
\<close>

theorem getNextDealId_storage_failure_counterexample:
  "fst (getNextDealId (\<lambda>s. NaN) 1000 1000
          \<lparr>items = Map.empty, getDataFails = True, setDataFails = True\<rparr> ''k'' 900000)
     \<noteq> JNum (Fin 0)"
  by (simp add: getNextDealId_def getNextDealId_try_def getStorageItem_def
      getDataFromLocalStorage_def Let_def)

theorem getNextDealId_storage_failure_witness:
  "getNextDealId (\<lambda>s. NaN) 1000 1000
      \<lparr>items = Map.empty, getDataFails = True, setDataFails = True\<rparr> ''k'' 900000
     = (JNum (Fin 1), \<lparr>items = Map.empty, getDataFails = True, setDataFails = True\<rparr>)
   \<and> getNextDealId (\<lambda>s. NaN) 1000 1000
      \<lparr>items = [''k'' \<mapsto> StoredValue (JNum (Fin 4)) 500], getDataFails = False, setDataFails = True\<rparr>
      ''k'' 900000
     = (JNum (Fin 5),
        \<lparr>items = [''k'' \<mapsto> StoredValue (JNum (Fin 4)) 500], getDataFails = False, setDataFails = True\<rparr>)"
proof -
  have f1: "getDataFails \<lparr>items = Map.empty, getDataFails = True, setDataFails = True\<rparr>
      \<or> setDataFails \<lparr>items = Map.empty, getDataFails = True, setDataFails = True\<rparr>"
    by simp
  have f2: "getDataFails \<lparr>items = [''k'' \<mapsto> StoredValue (JNum (Fin 4)) 500], getDataFails = False, setDataFails = True\<rparr>
      \<or> setDataFails \<lparr>items = [''k'' \<mapsto> StoredValue (JNum (Fin 4)) 500], getDataFails = False, setDataFails = True\<rparr>"
    by simp
  from getNextDealId_storage_failure [OF f1, of "\<lambda>s. NaN" 1000 1000 "''k''" 900000]
    getNextDealId_storage_failure [OF f2, of "\<lambda>s. NaN" 1000 1000 "''k''" 900000]
  show ?thesis
    by (simp add: getNextDealId_def getNextDealId_try_def getStorageItem_def
      getDataFromLocalStorage_def setStorageItem_def setDataInLocalStorage_def
      tryParseJSON_def StoredValue_def lookup_def Let_def)
qed

lemma getUniqueDealId_cached:
  assumes "getStorageItem st (''u_'' @ key) = d" "truthy d" "read_prop d ''value'' = Inr v" "truthy v"
    "read_prop d ''created'' = Inr c" "\<not> num_gt (num_sub (Fin now) (ToNumber s2n c)) (Fin expiry)"
  shows "getUniqueDealId s2n now now' st key expiry = Inr (v, st)"
  using assms by (simp add: getUniqueDealId_def Let_def)

lemma getUniqueDealId_cases:
  "(\<exists>d v c. getStorageItem st (''u_'' @ key) = d \<and> truthy d \<and> read_prop d ''value'' = Inr v \<and> truthy v
      \<and> read_prop d ''created'' = Inr c \<and> \<not> num_gt (num_sub (Fin now) (ToNumber s2n c)) (Fin expiry)
      \<and> getUniqueDealId s2n now now' st key expiry = Inr (v, st))
   \<or> getUniqueDealId s2n now now' st key expiry =
        Inr (JStr (key @ ''_'' @ dec_int now),
             setStorageItem now' st (''u_'' @ key) (JStr (key @ ''_'' @ dec_int now)) JUndefined)"
proof -
  let ?d = "getStorageItem st (''u_'' @ key)"
  show ?thesis
  proof (cases "truthy ?d")
    case False
    then show ?thesis by (simp add: getUniqueDealId_def Let_def)
  next
    case True
    then obtain v where v: "read_prop ?d ''value'' = Inr v"
      using read_prop_truthy by blast
    obtain c where c: "read_prop ?d ''created'' = Inr c"
      using True read_prop_truthy by blast
    show ?thesis
      using True v c by (simp add: getUniqueDealId_def Let_def)
  qed
qed

text \<open>
  C7. With a working storage, \<open>getUniqueDealId\<close> returns, and if the second call comes
  within the expiry window of the item the first call left under the key, the second
  call returns the identical id and leaves the storage exactly as the first call left
  it. When the first call finds no item it creates the id \<open>key_now\<close>, stored with the
  clock reading \<open>now'\<close> of the write, and the window is \<open>now2 - now' \<le> expiry\<close>.
\<close>

theorem getUniqueDealId_stable:
  assumes works: "\<not> getDataFails st" "\<not> setDataFails st"
  shows "case getUniqueDealId s2n now1 now1' st key expiry of
           Inl e \<Rightarrow> False
         | Inr (id1, st1) \<Rightarrow>
             (within_expiry s2n now2 st1 key expiry \<longrightarrow>
                getUniqueDealId s2n now2 now2' st1 key expiry = Inr (id1, st1))
             \<and> (items st (''u_'' @ key) = None \<longrightarrow> id1 = JStr (key @ ''_'' @ dec_int now1)
                  \<and> within_expiry s2n now2 st1 key expiry = (now2 - now1' \<le> expiry))"
proof -
  let ?k = "''u_'' @ key"
  let ?id = "JStr (key @ ''_'' @ dec_int now1)"
  let ?st1 = "setStorageItem now1' st ?k ?id JUndefined"
  consider (cached) d v c where "getStorageItem st ?k = d" "truthy d" "read_prop d ''value'' = Inr v"
      "truthy v" "read_prop d ''created'' = Inr c"
      "getUniqueDealId s2n now1 now1' st key expiry = Inr (v, st)"
    | (fresh) "getUniqueDealId s2n now1 now1' st key expiry = Inr (?id, ?st1)"
    using getUniqueDealId_cases [of st key now1 s2n expiry now1'] by blast
  then show ?thesis
  proof cases
    case cached
    have "within_expiry s2n now2 st key expiry \<Longrightarrow>
        getUniqueDealId s2n now2 now2' st key expiry = Inr (v, st)"
      using cached
      by (intro getUniqueDealId_cached [where d = d and c = c])
         (simp_all add: within_expiry_def read_opt_def)
    moreover have "items st ?k \<noteq> None"
      using cached works by (cases "items st ?k") (auto simp add: getStorageItem_works)
    ultimately show ?thesis
      using cached by auto
  next
    case fresh
    have item: "getStorageItem ?st1 ?k = JObj [(''value'', ?id), (''created'', JNum (Fin now1'))]"
      using works by (simp add: setStorageItem_works getStorageItem_works)
    have window: "within_expiry s2n now2 ?st1 key expiry = (now2 - now1' \<le> expiry)"
      unfolding within_expiry_def item
      by (auto simp add: read_opt_def lookup_def num_gt_def)
    have "getUniqueDealId s2n now2 now2' ?st1 key expiry = Inr (?id, ?st1)"
      if w: "within_expiry s2n now2 ?st1 key expiry"
    proof -
      from w have le: "now2 - now1' \<le> expiry"
        by (simp only: window)
      show ?thesis
        by (rule getUniqueDealId_cached [OF item, where v = ?id and c = "JNum (Fin now1')"])
           (use le in \<open>simp_all add: lookup_def num_gt_def\<close>)
    qed
    then show ?thesis
      using fresh window by simp
  qed
qed

theorem getUniqueDealId_stable_witness:
  "getUniqueDealId (\<lambda>s. NaN) 1000 1001
      \<lparr>items = Map.empty, getDataFails = False, setDataFails = False\<rparr> ''_123'' 3600000
     = Inr (JStr ''_123_1000'',
        \<lparr>items = [''u__123'' \<mapsto> JObj [(''value'', JStr ''_123_1000''), (''created'', JNum (Fin 1001))]],
         getDataFails = False, setDataFails = False\<rparr>)
   \<and> getUniqueDealId (\<lambda>s. NaN) 5000 5001
      \<lparr>items = [''u__123'' \<mapsto> JObj [(''value'', JStr ''_123_1000''), (''created'', JNum (Fin 1001))]],
         getDataFails = False, setDataFails = False\<rparr> ''_123'' 3600000
     = Inr (JStr ''_123_1000'',
        \<lparr>items = [''u__123'' \<mapsto> JObj [(''value'', JStr ''_123_1000''), (''created'', JNum (Fin 1001))]],
         getDataFails = False, setDataFails = False\<rparr>)"
proof -
  have works: "\<not> getDataFails \<lparr>items = Map.empty, getDataFails = False, setDataFails = False\<rparr>"
    "\<not> setDataFails \<lparr>items = Map.empty, getDataFails = False, setDataFails = False\<rparr>"
    by simp_all
  have first: "getUniqueDealId (\<lambda>s. NaN) 1000 1001
      \<lparr>items = Map.empty, getDataFails = False, setDataFails = False\<rparr> ''_123'' 3600000
     = Inr (JStr ''_123_1000'',
        \<lparr>items = [''u__123'' \<mapsto> JObj [(''value'', JStr ''_123_1000''), (''created'', JNum (Fin 1001))]],
         getDataFails = False, setDataFails = False\<rparr>)"
    by (simp add: getUniqueDealId_def getStorageItem_def getDataFromLocalStorage_def
        tryParseJSON_def setStorageItem_def setDataInLocalStorage_def Let_def
        dec_int_def dec_nat.simps digit_def)
  from getUniqueDealId_stable [OF works, where ?s2n = "\<lambda>s. NaN" and ?now1.0 = 1000
      and ?now1' = 1001 and key = "''_123''" and expiry = 3600000 and ?now2.0 = 5000 and ?now2' = 5001]
  show ?thesis
    unfolding first
    by (simp add: within_expiry_def getStorageItem_def getDataFromLocalStorage_def
        tryParseJSON_def read_opt_def lookup_def num_gt_def dec_int_def dec_nat.simps digit_def)
qed

subsection \<open>Floor resolution\<close>

lemma read_opt_JObj [simp]: "read_opt (JObj ps) k = lookup ps k"
  by (simp add: read_opt_def)

lemma read_prop_not_nullish: "\<not> nullish v \<Longrightarrow> read_prop v k = Inr (read_opt v k)"
  by (cases v) (simp_all add: nullish_def read_opt_def)

lemma thenE_return [simp]: "thenE m Inr = m"
  by (cases m) simp_all

text \<open>
  C1 (amended). If the bid has no floor function, the floor is the statically
  configured per-bid floor (\<open>params.bidfloor\<close> for orbidder, \<open>params.bidFloor\<close> for
  vidazoo). If it has one, the function is called with the settlement currency of the
  adapter (EUR for orbidder, USD for vidazoo). Orbidder uses the returned floor exactly
  when the result is a plain object whose floor is not NaN and whose currency is
  \<open>'EUR'\<close>; in every other case the floor is \<open>undefined\<close>, and the static floor is not
  consulted. Vidazoo uses the returned floor exactly when the currency of the result is
  \<open>'USD'\<close> (there is no test of the floor itself), and falls back to the static floor
  otherwise; this is stated for a result that is not \<open>undefined\<close> or \<open>null\<close>.
\<close>

theorem floor_resolution:
  "(getFloor bid = None \<longrightarrow>
      getBidFloor s2n bid = read_prop (lookup (props bid) ''params'') ''bidfloor''
      \<and> buildRequestData_bidFloor bid = read_prop (lookup (props bid) ''params'') ''bidFloor'')
   \<and> (\<forall>f r. getFloor bid = Some f \<and> r = f (floor_query ''EUR'') \<longrightarrow>
         getBidFloor s2n bid =
           (if isPlainObject r \<and> \<not> isNaN s2n (read_opt r ''floor'')
               \<and> read_opt r ''currency'' = JStr ''EUR''
            then Inr (read_opt r ''floor'') else Inr JUndefined))
   \<and> (\<forall>f r static. getFloor bid = Some f \<and> r = f (floor_query ''USD'') \<and> \<not> nullish r
         \<and> read_prop (lookup (props bid) ''params'') ''bidFloor'' = Inr static \<longrightarrow>
         buildRequestData_bidFloor bid =
           (if read_opt r ''currency'' = JStr ''USD'' then Inr (read_opt r ''floor'')
            else Inr static))
   \<and> read_opt (floor_query ''EUR'') ''currency'' = JStr ''EUR''
   \<and> read_opt (floor_query ''USD'') ''currency'' = JStr ''USD''"
  by (auto simp add: getBidFloor_def buildRequestData_bidFloor_def Let_def read_prop_not_nullish
      floor_query_def lookup_def split: option.splits sum.splits)

text \<open>
  C1 as claimed fails: with a static floor of 1 and a floor function answering in USD,
  orbidder's \<open>getBidFloor\<close> returns \<open>undefined\<close>, not the static floor; and with a
  static floor of 1 and a floor function answering NaN in USD, the floor of vidazoo's
  request is NaN, not the static floor.
\<close>

theorem floor_resolution_counterexample:
  "getBidFloor (\<lambda>s. NaN)
     \<lparr>props = [(''params'', JObj [(''bidfloor'', JNum (Fin 1))])],
      getFloor = Some (\<lambda>q. JObj [(''currency'', JStr ''USD''), (''floor'', JNum (Fin 2))])\<rparr>
     = Inr JUndefined
   \<and> read_prop (lookup [(''params'', JObj [(''bidfloor'', JNum (Fin 1))])] ''params'') ''bidfloor''
     = Inr (JNum (Fin 1))
   \<and> buildRequestData_bidFloor
     \<lparr>props = [(''params'', JObj [(''bidFloor'', JNum (Fin 1))])],
      getFloor = Some (\<lambda>q. JObj [(''currency'', JStr ''USD''), (''floor'', JNum NaN)])\<rparr>
     = Inr (JNum NaN)"
  by (simp add: getBidFloor_def buildRequestData_bidFloor_def Let_def lookup_def)

theorem floor_resolution_witness:
  "getBidFloor (\<lambda>s. NaN)
     \<lparr>props = [(''params'', JObj [(''bidfloor'', JNum (Fin 1))])], getFloor = None\<rparr>
     = Inr (JNum (Fin 1))
   \<and> getBidFloor (\<lambda>s. NaN)
     \<lparr>props = [(''params'', JObj [(''bidfloor'', JNum (Fin 1))])],
      getFloor = Some (\<lambda>q. JObj [(''currency'', read_opt q ''currency''), (''floor'', JNum (Fin 2))])\<rparr>
     = Inr (JNum (Fin 2))
   \<and> buildRequestData_bidFloor
     \<lparr>props = [(''params'', JObj [(''bidFloor'', JNum (Fin 1))])],
      getFloor = Some (\<lambda>q. JObj [(''currency'', JStr ''EUR''), (''floor'', JNum (Fin 2))])\<rparr>
     = Inr (JNum (Fin 1))"
  using floor_resolution [of "\<lparr>props = [(''params'', JObj [(''bidfloor'', JNum (Fin 1))])], getFloor = None\<rparr>" "\<lambda>s. NaN"]
    floor_resolution [of "\<lparr>props = [(''params'', JObj [(''bidfloor'', JNum (Fin 1))])],
      getFloor = Some (\<lambda>q. JObj [(''currency'', read_opt q ''currency''), (''floor'', JNum (Fin 2))])\<rparr>" "\<lambda>s. NaN"]
    floor_resolution [of "\<lparr>props = [(''params'', JObj [(''bidFloor'', JNum (Fin 1))])],
      getFloor = Some (\<lambda>q. JObj [(''currency'', JStr ''EUR''), (''floor'', JNum (Fin 2))])\<rparr>" "\<lambda>s. NaN"]
  by (simp add: lookup_def floor_query_def isNaN_def nullish_def)

subsection \<open>Bid request validity\<close>

lemma truthy_string: "(truthy v \<and> typeof v = ''string'') = (\<exists>s. v = JStr s \<and> s \<noteq> [])"
  by (cases v) auto

lemma typeof_object: "(typeof v = ''undefined'' \<or> typeof v = ''object'')
    = (v = JUndefined \<or> v = JNull \<or> isArray v \<or> isPlainObject v)"
  by (cases v) auto

lemma first_truthy_truthy: "truthy (first_truthy vs) = (\<exists>v \<in> set vs. truthy v)"
  by (induction vs rule: first_truthy.induct) auto

lemma extractCID_truthy:
  "\<not> nullish params \<Longrightarrow>
   \<exists>cid. extractCID params = Inr cid \<and> truthy cid = (\<exists>k \<in> set cid_names. truthy (read_opt params k))"
  by (simp add: extractCID_def read_prop_not_nullish first_truthy_truthy cid_names_def
      del: first_truthy.simps)

lemma extractPID_truthy:
  "\<not> nullish params \<Longrightarrow>
   \<exists>pid. extractPID params = Inr pid \<and> truthy pid = (\<exists>k \<in> set pid_names. truthy (read_opt params k))"
  by (simp add: extractPID_def read_prop_not_nullish first_truthy_truthy pid_names_def
      del: first_truthy.simps)

lemma read_opt_falsy:
  "\<not> truthy p \<Longrightarrow> k \<noteq> ''length'' \<Longrightarrow> read_opt p k = JUndefined"
  by (cases p) (simp_all add: read_opt_def)

lemma vidazoo_valid:
  "vidazoo_isBidRequestValid (JObj ps) =
     Inr ((\<exists>k \<in> set cid_names. truthy (read_opt (lookup ps ''params'') k))
          \<and> (\<exists>k \<in> set pid_names. truthy (read_opt (lookup ps ''params'') k)))"
proof -
  let ?p = "lookup ps ''params''"
  let ?params = "if truthy ?p then ?p else JObj []"
  have nn: "\<not> nullish ?params"
    by (cases ?p) (simp_all add: nullish_def)
  have same: "k \<noteq> ''length'' \<Longrightarrow> read_opt ?params k = read_opt ?p k" for k
    by (simp add: read_opt_falsy lookup_def)
  obtain cid where cid: "extractCID ?params = Inr cid"
    "truthy cid = (\<exists>k \<in> set cid_names. truthy (read_opt ?params k))"
    using extractCID_truthy [OF nn] by blast
  obtain pid where pid: "extractPID ?params = Inr pid"
    "truthy pid = (\<exists>k \<in> set pid_names. truthy (read_opt ?params k))"
    using extractPID_truthy [OF nn] by blast
  have c: "(\<exists>k \<in> set cid_names. truthy (read_opt ?params k))
      = (\<exists>k \<in> set cid_names. truthy (read_opt ?p k))"
  proof -
    have "k \<in> set cid_names \<Longrightarrow> read_opt ?params k = read_opt ?p k" for k
      by (rule same) (auto simp add: cid_names_def)
    then show ?thesis by auto
  qed
  have p: "(\<exists>k \<in> set pid_names. truthy (read_opt ?params k))
      = (\<exists>k \<in> set pid_names. truthy (read_opt ?p k))"
  proof -
    have "k \<in> set pid_names \<Longrightarrow> read_opt ?params k = read_opt ?p k" for k
      by (rule same) (auto simp add: pid_names_def)
    then show ?thesis by auto
  qed
  show ?thesis
    unfolding vidazoo_isBidRequestValid_def Let_def
    using cid pid c p by (simp del: set_simps)
qed

lemma read_opt_string_object:
  "read_opt v k = JStr a \<Longrightarrow> truthy v"
  by (cases v) (simp_all add: read_opt_def split: if_splits)

lemma orbidder_valid:
  "orbidder_isBidRequestValid (JObj ps) =
     Inr (truthy (lookup ps ''sizes'') \<and> truthy (lookup ps ''bidId'')
          \<and> (\<exists>a. read_opt (lookup ps ''params'') ''accountId'' = JStr a \<and> a \<noteq> [])
          \<and> (\<exists>p. read_opt (lookup ps ''params'') ''placementId'' = JStr p \<and> p \<noteq> [])
          \<and> (read_opt (lookup ps ''params'') ''keyValues'' = JUndefined
               \<or> read_opt (lookup ps ''params'') ''keyValues'' = JNull
               \<or> isArray (read_opt (lookup ps ''params'') ''keyValues'')
               \<or> isPlainObject (read_opt (lookup ps ''params'') ''keyValues'')))"
  unfolding orbidder_isBidRequestValid_def Let_def truthy_string typeof_object
  using read_opt_string_object [of "lookup ps ''params''" "''accountId''"]
  by auto

text \<open>
  C3 (amended). For a bid object, orbidder's \<open>isBidRequestValid\<close> is true exactly when
  \<open>sizes\<close> and \<open>bidId\<close> are truthy, \<open>params.accountId\<close> and \<open>params.placementId\<close> are
  non-empty strings and \<open>params.keyValues\<close> is absent or of type \<open>'object'\<close> (an object,
  an array or \<open>null\<close>). Vidazoo's is true exactly when \<open>params\<close> has a truthy campaign
  id and a truthy publisher id under one of the accepted spellings; it looks neither
  at sizes nor at the bid id.
\<close>

theorem isBidRequestValid_characterised:
  "orbidder_isBidRequestValid (JObj ps) =
     Inr (truthy (lookup ps ''sizes'') \<and> truthy (lookup ps ''bidId'')
          \<and> (\<exists>a. read_opt (lookup ps ''params'') ''accountId'' = JStr a \<and> a \<noteq> [])
          \<and> (\<exists>p. read_opt (lookup ps ''params'') ''placementId'' = JStr p \<and> p \<noteq> [])
          \<and> (read_opt (lookup ps ''params'') ''keyValues'' = JUndefined
               \<or> read_opt (lookup ps ''params'') ''keyValues'' = JNull
               \<or> isArray (read_opt (lookup ps ''params'') ''keyValues'')
               \<or> isPlainObject (read_opt (lookup ps ''params'') ''keyValues'')))
   \<and> vidazoo_isBidRequestValid (JObj ps) =
     Inr ((\<exists>k \<in> set cid_names. truthy (read_opt (lookup ps ''params'') k))
          \<and> (\<exists>k \<in> set pid_names. truthy (read_opt (lookup ps ''params'') k)))"
  using orbidder_valid [of ps] vidazoo_valid [of ps] by (rule conjI)

text \<open>
  C3 as claimed fails: orbidder accepts a bid whose \<open>sizes\<close> is the empty array (an
  empty array is truthy), and vidazoo accepts a bid with neither sizes nor a bid id.
\<close>

theorem isBidRequestValid_counterexample:
  "orbidder_isBidRequestValid
     (JObj [(''sizes'', JArr []), (''bidId'', JStr ''1''),
            (''params'', JObj [(''accountId'', JStr ''a''), (''placementId'', JStr ''p'')])])
     = Inr True
   \<and> vidazoo_isBidRequestValid
     (JObj [(''params'', JObj [(''cId'', JStr ''c''), (''pId'', JStr ''p'')])])
     = Inr True"
  by (simp add: orbidder_isBidRequestValid_def vidazoo_isBidRequestValid_def extractCID_def
      extractPID_def lookup_def Let_def read_opt_def)

theorem isBidRequestValid_characterised_witness:
  "orbidder_isBidRequestValid
     (JObj [(''sizes'', JArr [JArr [JNum (Fin 300), JNum (Fin 250)]]), (''bidId'', JStr ''1''),
            (''params'', JObj [(''accountId'', JStr ''a''), (''placementId'', JStr ''p'')])])
     = Inr True
   \<and> orbidder_isBidRequestValid
     (JObj [(''sizes'', JArr [JArr [JNum (Fin 300), JNum (Fin 250)]]), (''bidId'', JStr ''1''),
            (''params'', JObj [(''accountId'', JNum (Fin 123)), (''placementId'', JStr ''p'')])])
     = Inr False
   \<and> orbidder_isBidRequestValid
     (JObj [(''sizes'', JArr [JArr [JNum (Fin 300), JNum (Fin 250)]]),
            (''params'', JObj [(''accountId'', JStr ''a''), (''placementId'', JStr ''p'')])])
     = Inr False
   \<and> vidazoo_isBidRequestValid
     (JObj [(''sizes'', JArr []), (''params'', JObj [(''cId'', JStr ''c'')])])
     = Inr False"
  using isBidRequestValid_characterised
      [of "[(''sizes'', JArr [JArr [JNum (Fin 300), JNum (Fin 250)]]), (''bidId'', JStr ''1''),
            (''params'', JObj [(''accountId'', JStr ''a''), (''placementId'', JStr ''p'')])]"]
    isBidRequestValid_characterised
      [of "[(''sizes'', JArr [JArr [JNum (Fin 300), JNum (Fin 250)]]), (''bidId'', JStr ''1''),
            (''params'', JObj [(''accountId'', JNum (Fin 123)), (''placementId'', JStr ''p'')])]"]
    isBidRequestValid_characterised
      [of "[(''sizes'', JArr [JArr [JNum (Fin 300), JNum (Fin 250)]]),
            (''params'', JObj [(''accountId'', JStr ''a''), (''placementId'', JStr ''p'')])]"]
    isBidRequestValid_characterised
      [of "[(''sizes'', JArr []), (''params'', JObj [(''cId'', JStr ''c'')])]"]
  by (simp add: lookup_def cid_names_def pid_names_def)

subsection \<open>Responses\<close>

lemma valid_is_object: "isBidResponseValid r = Inr True \<Longrightarrow> \<exists>ps. r = JObj ps"
  by (cases r) (auto simp add: isBidResponseValid_def BANNER_def NATIVE_def split: if_splits)

lemma callback_valid:
  assumes "isBidResponseValid r = Inr True"
  shows "thenE (read_prop r ''advertiserDomains'') (\<lambda>advertiserDomains.
            thenE (if isArray advertiserDomains
                   then assign_prop r ''meta'' (JObj [(''advertiserDomains'', advertiserDomains)])
                   else Inr r) k) = k (with_meta r)"
proof -
  obtain ps where "r = JObj ps"
    using valid_is_object [OF assms] by blast
  then show ?thesis
    by (simp add: with_meta_def)
qed

lemma forEach_returns:
  "forEach_bidResponse acc rs = Inr out \<Longrightarrow>
   out = acc @ map with_meta (filter (\<lambda>r. isBidResponseValid r = Inr True) rs)"
proof (induction rs arbitrary: acc)
  case Nil
  then show ?case by simp
next
  case (Cons r rs)
  show ?case
  proof (cases "isBidResponseValid r")
    case (Inl e)
    with Cons.prems show ?thesis by simp
  next
    case (Inr b)
    show ?thesis
    proof (cases b)
      case True
      with Inr have v: "isBidResponseValid r = Inr True" by simp
      from Cons.prems have "forEach_bidResponse (acc @ [with_meta r]) rs = Inr out"
        by (simp add: v callback_valid [OF v])
      from Cons.IH [OF this] show ?thesis
        by (simp add: v)
    next
      case False
      with Inr Cons.prems have "forEach_bidResponse acc rs = Inr out" by simp
      from Cons.IH [OF this] show ?thesis
        using Inr False by simp
    qed
  qed
qed

lemma forEach_total:
  "\<forall>r \<in> set rs. \<exists>b. isBidResponseValid r = Inr b \<Longrightarrow>
   \<exists>out. forEach_bidResponse acc rs = Inr out"
proof (induction rs arbitrary: acc)
  case Nil
  then show ?case by simp
next
  case (Cons r rs)
  then obtain b where b: "isBidResponseValid r = Inr b" by auto
  show ?case
  proof (cases b)
    case True
    with b have v: "isBidResponseValid r = Inr True" by simp
    show ?thesis
      using Cons.IH [of "acc @ [with_meta r]"] Cons.prems
      by (simp add: v callback_valid [OF v])
  next
    case False
    then show ?thesis
      using Cons.IH [of acc] Cons.prems b by simp
  qed
qed

text \<open>
  C2, at the failing input: a record with \<open>mediaType = 'native'\<close> and no \<open>native\<close>
  object makes \<open>isBidResponseValid\<close> throw a TypeError, which ends \<open>interpretResponse\<close>;
  the valid banner record after it, which is returned when it comes alone, is not
  returned.
\<close>

theorem interpretResponse_native_without_native_throws:
  "interpretResponse s2n
     (JObj [(''body'', JArr [JObj [(''mediaType'', JStr ''native'')], valid_banner])])
     = Inl TypeError
   \<and> interpretResponse s2n (JObj [(''body'', JArr [valid_banner])]) = Inr [valid_banner]"
  by (simp add: interpretResponse_def isBidResponseValid_def valid_banner_def BANNER_def
      NATIVE_def lookup_def num_gt_def read_opt_def)

text \<open>
  C10 (amended). For a response whose body is an array, whenever \<open>interpretResponse\<close>
  returns, the returned array is the subsequence of the records that pass validation,
  in their order, each record as it was except that, when its \<open>advertiserDomains\<close> is
  an array, its property \<open>meta\<close> is set to the new object \<open>{advertiserDomains}\<close>
  (replacing a \<open>meta\<close> the record had). It returns whenever the validation of no
  record throws.
\<close>

theorem interpretResponse_valid_subsequence:
  assumes "read_opt serverResponse ''body'' = JArr records"
  shows "(\<forall>out. interpretResponse s2n serverResponse = Inr out \<longrightarrow>
            out = map with_meta (filter (\<lambda>r. isBidResponseValid r = Inr True) records))
    \<and> ((\<forall>r \<in> set records. \<exists>b. isBidResponseValid r = Inr b) \<longrightarrow>
            (\<exists>out. interpretResponse s2n serverResponse = Inr out))"
proof -
  have body: "read_prop serverResponse ''body'' = Inr (JArr records)"
    using assms by (cases serverResponse) (simp_all add: read_opt_def split: if_splits)
  have run: "interpretResponse s2n serverResponse =
      (if records = [] then Inr [] else forEach_bidResponse [] records)"
    by (simp add: interpretResponse_def body read_opt_def num_gt_def)
  show ?thesis
  proof (cases "records = []")
    case True
    then show ?thesis by (simp add: run)
  next
    case False
    then show ?thesis
      using forEach_returns [of "[]" records] forEach_total [of records "[]"]
      by (auto simp add: run)
  qed
qed

text \<open>
  C10 as claimed fails: a valid record that arrives with \<open>meta = {brandName: 'x'}\<close> and
  a list of advertiser domains is returned with \<open>meta = {advertiserDomains}\<close>; its
  \<open>meta.brandName\<close> is gone.
\<close>

theorem interpretResponse_valid_subsequence_counterexample:
  "interpretResponse (\<lambda>s. NaN)
     (JObj [(''body'', JArr [JObj
        [(''requestId'', JStr ''1''), (''cpm'', JNum (Fin 1)), (''ttl'', JNum (Fin 60)),
         (''creativeId'', JStr ''c''), (''netRevenue'', JBool True), (''currency'', JStr ''EUR''),
         (''mediaType'', JStr ''banner''), (''width'', JNum (Fin 300)),
         (''height'', JNum (Fin 250)), (''ad'', JStr ''<div/>''),
         (''meta'', JObj [(''brandName'', JStr ''x'')]),
         (''advertiserDomains'', JArr [JStr ''a.com''])]])])
   = Inr [JObj
        [(''requestId'', JStr ''1''), (''cpm'', JNum (Fin 1)), (''ttl'', JNum (Fin 60)),
         (''creativeId'', JStr ''c''), (''netRevenue'', JBool True), (''currency'', JStr ''EUR''),
         (''mediaType'', JStr ''banner''), (''width'', JNum (Fin 300)),
         (''height'', JNum (Fin 250)), (''ad'', JStr ''<div/>''),
         (''meta'', JObj [(''advertiserDomains'', JArr [JStr ''a.com''])]),
         (''advertiserDomains'', JArr [JStr ''a.com''])]]"
  by (simp add: interpretResponse_def isBidResponseValid_def BANNER_def
      NATIVE_def lookup_def num_gt_def read_opt_def)

theorem interpretResponse_valid_subsequence_witness:
  "interpretResponse (\<lambda>s. NaN)
     (JObj [(''body'', JArr [valid_banner, JObj [(''mediaType'', JStr ''video'')],
        JObj [(''requestId'', JStr ''2''), (''cpm'', JNum (Fin 1)), (''ttl'', JNum (Fin 60)),
         (''creativeId'', JStr ''c''), (''netRevenue'', JBool True), (''currency'', JStr ''EUR''),
         (''mediaType'', JStr ''native''), (''native'', JObj [(''impressionTrackers'', JArr [])]),
         (''advertiserDomains'', JArr [JStr ''a.com''])]])])
   = Inr [valid_banner,
        JObj [(''requestId'', JStr ''2''), (''cpm'', JNum (Fin 1)), (''ttl'', JNum (Fin 60)),
         (''creativeId'', JStr ''c''), (''netRevenue'', JBool True), (''currency'', JStr ''EUR''),
         (''mediaType'', JStr ''native''), (''native'', JObj [(''impressionTrackers'', JArr [])]),
         (''advertiserDomains'', JArr [JStr ''a.com'']),
         (''meta'', JObj [(''advertiserDomains'', JArr [JStr ''a.com''])])]]"
proof -
  let ?native = "JObj [(''requestId'', JStr ''2''), (''cpm'', JNum (Fin 1)), (''ttl'', JNum (Fin 60)),
         (''creativeId'', JStr ''c''), (''netRevenue'', JBool True), (''currency'', JStr ''EUR''),
         (''mediaType'', JStr ''native''), (''native'', JObj [(''impressionTrackers'', JArr [])]),
         (''advertiserDomains'', JArr [JStr ''a.com''])]"
  let ?records = "[valid_banner, JObj [(''mediaType'', JStr ''video'')], ?native]"
  have body: "read_opt (JObj [(''body'', JArr ?records)]) ''body'' = JArr ?records"
    by (simp add: lookup_def)
  have v1: "isBidResponseValid valid_banner = Inr True"
    by (simp add: isBidResponseValid_def valid_banner_def BANNER_def NATIVE_def lookup_def)
  have v2: "isBidResponseValid (JObj [(''mediaType'', JStr ''video'')]) = Inr False"
    by (simp add: isBidResponseValid_def BANNER_def NATIVE_def lookup_def)
  have v3: "isBidResponseValid ?native = Inr True"
    by (simp add: isBidResponseValid_def BANNER_def NATIVE_def lookup_def)
  have total: "\<forall>r \<in> set ?records. \<exists>b. isBidResponseValid r = Inr b"
    using v1 v2 v3 by auto
  from interpretResponse_valid_subsequence [OF body, of "\<lambda>s. NaN", THEN conjunct2, THEN mp, OF total]
  obtain out where out: "interpretResponse (\<lambda>s. NaN) (JObj [(''body'', JArr ?records)]) = Inr out"
    by blast
  from interpretResponse_valid_subsequence [OF body, of "\<lambda>s. NaN", THEN conjunct1, THEN spec, THEN mp, OF out]
  have "out = map with_meta [valid_banner, ?native]"
    by (simp add: v1 v2 v3)
  then show ?thesis
    unfolding out by (simp add: with_meta_def valid_banner_def lookup_def)
qed

subsection \<open>Building requests\<close>

lemma lookup_assign: "lookup (assign ps k v) k' = (if k' = k then v else lookup ps k')"
  by (induction ps) (auto simp add: lookup_def)

lemma keys_assign: "k \<in> fst ` set ps \<Longrightarrow> map fst (assign ps k v) = map fst ps"
  by (induction ps) force+

lemma lookup_remove: "lookup (remove ms k) k' = (if k' = k then JUndefined else lookup ms k')"
  by (induction ms) (auto simp add: lookup_def remove_def)

lemma lookup_present: "lookup ps k \<noteq> JUndefined \<Longrightarrow> k \<in> fst ` set ps"
  by (induction ps) (auto simp add: lookup_def split: if_splits)

lemma truthy_read_object: "truthy (read_opt v k) \<Longrightarrow> k \<noteq> ''length'' \<Longrightarrow> \<exists>ms. v = JObj ms"
  by (cases v) (auto simp add: read_opt_def)

lemma assign_prop_Inr: "assign_prop v k w = Inr v' \<Longrightarrow> \<exists>ps. v = JObj ps \<and> v' = JObj (assign ps k w)"
  by (cases v) auto

lemma getBidFloor_mediaTypes:
  "getBidFloor s2n (b\<lparr>props := assign (props b) ''mediaTypes'' m\<rparr>) = getBidFloor s2n b"
  by (simp add: getBidFloor_def lookup_assign split: option.splits)

lemma buildRequest_frame:
  assumes "buildRequest s2n hostname bidderRequest b = Inr (req, b')"
  shows "same_but_floor_and_video s2n b b'"
proof -
  let ?mt = "lookup (props b) ''mediaTypes''"
  define b1 where "b1 = (if truthy (read_opt ?mt ''video'')
                  then (case ?mt of
                          JObj ms \<Rightarrow> b\<lparr>props := assign (props b) ''mediaTypes'' (JObj (remove ms ''video''))\<rparr>
                        | _ \<Rightarrow> b)
                  else b)"
  have floor1: "getBidFloor s2n b1 = getBidFloor s2n b"
    by (simp add: b1_def getBidFloor_mediaTypes split: jsval.splits)
  have gf1: "getFloor b1 = getFloor b"
    by (simp add: b1_def split: jsval.splits)
  have params1: "lookup (props b1) ''params'' = lookup (props b) ''params''"
    by (simp add: b1_def lookup_assign split: jsval.splits)
  have other1: "k \<noteq> ''mediaTypes'' \<Longrightarrow> lookup (props b1) k = lookup (props b) k" for k
    by (simp add: b1_def lookup_assign split: jsval.splits)
  have keys1: "map fst (props b1) = map fst (props b)"
  proof (cases "truthy (read_opt ?mt ''video'')")
    case True
    then obtain ms where ms: "?mt = JObj ms"
      using truthy_read_object by blast
    then have "''mediaTypes'' \<in> fst ` set (props b)"
      by (intro lookup_present) simp
    then show ?thesis
      by (simp add: b1_def True ms keys_assign)
  next
    case False
    then show ?thesis by (simp add: b1_def)
  qed
  have mt1: "k \<noteq> ''video'' \<Longrightarrow> read_opt (lookup (props b1) ''mediaTypes'') k = read_opt ?mt k" for k
    by (cases ?mt) (simp_all add: b1_def lookup_assign lookup_remove read_opt_def)
  have video1: "read_opt (lookup (props b1) ''mediaTypes'') ''video''
      = (if truthy (read_opt ?mt ''video'') then JUndefined else read_opt ?mt ''video'')"
    by (cases ?mt) (simp_all add: b1_def lookup_assign lookup_remove read_opt_def)
  from assms obtain bidfloor params where
    fl: "getBidFloor s2n b1 = Inr bidfloor"
    and pa: "assign_prop (lookup (props b1) ''params'') ''bidfloor'' bidfloor = Inr params"
    and b': "b' = b1\<lparr>props := assign (props b1) ''params'' params\<rparr>"
    unfolding buildRequest_def Let_def b1_def [symmetric]
    by (auto simp add: thenE_def split: sum.splits)
  from pa obtain ps where ps: "lookup (props b1) ''params'' = JObj ps"
    and params: "params = JObj (assign ps ''bidfloor'' bidfloor)"
    using assign_prop_Inr by blast
  have pkey: "''params'' \<in> fst ` set (props b1)"
    by (rule lookup_present) (simp add: ps)
  have pb: "lookup (props b) ''params'' = JObj ps"
    using ps params1 by simp
  have fb: "getBidFloor s2n b = Inr bidfloor"
    using fl floor1 by simp
  show ?thesis
    unfolding same_but_floor_and_video_def b'
    using gf1 other1 keys1 mt1 video1 pkey
    by (simp add: lookup_assign keys_assign pb fb params)
qed

lemma mapE_Inr: "mapE f xs = Inr ys \<Longrightarrow> list_all2 (\<lambda>x y. f x = Inr y) xs ys"
proof (induction xs arbitrary: ys)
  case Nil
  then show ?case by simp
next
  case (Cons x xs)
  then show ?case
    by (cases "f x"; cases "mapE f xs") auto
qed

lemma mapE_total: "\<forall>x \<in> set xs. \<exists>y. f x = Inr y \<Longrightarrow> \<exists>ys. mapE f xs = Inr ys"
  by (induction xs) auto

lemma valid_params_object:
  assumes "orbidder_isBidRequestValid (JObj ps) = Inr True"
  shows "\<exists>qs. lookup ps ''params'' = JObj qs"
proof -
  from assms have "truthy (read_opt (lookup ps ''params'') ''accountId'')"
    by (simp add: orbidder_isBidRequestValid_def Let_def)
  then show ?thesis
    by (rule truthy_read_object) simp
qed

lemma buildRequest_total:
  assumes "orbidder_isBidRequestValid (JObj (props b)) = Inr True"
  shows "\<exists>r. buildRequest s2n hostname bidderRequest b = Inr r"
proof -
  obtain qs where qs: "lookup (props b) ''params'' = JObj qs"
    using valid_params_object [OF assms] by blast
  have fl: "\<exists>v. getBidFloor s2n b = Inr v"
    by (simp add: getBidFloor_def qs Let_def split: option.splits)
  show ?thesis
  proof (cases "truthy (read_opt (lookup (props b) ''mediaTypes'') ''video'')")
    case True
    then obtain ms where ms: "lookup (props b) ''mediaTypes'' = JObj ms"
      using truthy_read_object by blast
    from fl obtain v where v: "getBidFloor s2n b = Inr v" by blast
    from True show ?thesis
      unfolding ms
      by (simp add: buildRequest_def Let_def ms getBidFloor_mediaTypes v lookup_assign qs)
  next
    case False
    from fl obtain v where v: "getBidFloor s2n b = Inr v" by blast
    from False show ?thesis
      by (simp add: buildRequest_def Let_def v qs)
  qed
qed

text \<open>
  C9 (amended). When \<open>buildRequests\<close> returns and works on the received objects, each
  received bid request object is as before except for two things: \<open>params.bidfloor\<close> is
  set to the computed floor, and \<open>mediaTypes.video\<close> is deleted if it was truthy. When
  a converted copy was made, the received objects are untouched. On valid bid requests
  the call returns.
\<close>

theorem buildRequests_frame:
  "(\<forall>reqs bids'. buildRequests s2n convert ov bids bidderRequest = Inr (reqs, bids') \<longrightarrow>
       (convert bids = None \<longrightarrow> list_all2 (same_but_floor_and_video s2n) bids bids')
     \<and> (convert bids \<noteq> None \<longrightarrow> bids' = bids))
   \<and> (convert bids = None
        \<and> (\<forall>b \<in> set bids. orbidder_isBidRequestValid (JObj (props b)) = Inr True) \<longrightarrow>
        (\<exists>r. buildRequests s2n convert ov bids bidderRequest = Inr r))"
proof (intro conjI allI impI)
  fix reqs bids'
  assume r: "buildRequests s2n convert ov bids bidderRequest = Inr (reqs, bids')"
    and c: "convert bids = None"
  from r c obtain rs where rs: "mapE (buildRequest s2n (getHostname ov) bidderRequest) bids = Inr rs"
    and bids': "bids' = map snd rs"
    by (auto simp add: buildRequests_def Let_def thenE_def split: sum.splits)
  have "list_all2 (\<lambda>b r. buildRequest s2n (getHostname ov) bidderRequest b = Inr r) bids rs"
    by (rule mapE_Inr [OF rs])
  then have "list_all2 (\<lambda>b r. same_but_floor_and_video s2n b (snd r)) bids rs"
    by (rule list_all2_mono) (auto intro: buildRequest_frame)
  then show "list_all2 (same_but_floor_and_video s2n) bids bids'"
    by (simp add: bids' list_all2_map2)
next
  fix reqs bids'
  assume r: "buildRequests s2n convert ov bids bidderRequest = Inr (reqs, bids')"
    and c: "convert bids \<noteq> None"
  then show "bids' = bids"
    by (auto simp add: buildRequests_def Let_def thenE_def split: sum.splits)
next
  assume h: "convert bids = None
        \<and> (\<forall>b \<in> set bids. orbidder_isBidRequestValid (JObj (props b)) = Inr True)"
  then have "\<forall>b \<in> set bids. \<exists>r. buildRequest s2n (getHostname ov) bidderRequest b = Inr r"
    using buildRequest_total by blast
  then obtain rs where "mapE (buildRequest s2n (getHostname ov) bidderRequest) bids = Inr rs"
    using mapE_total by blast
  with h show "\<exists>r. buildRequests s2n convert ov bids bidderRequest = Inr r"
    by (simp add: buildRequests_def Let_def)
qed

text \<open>
  C9 as claimed fails: after the call the \<open>mediaTypes\<close> of a received bid request with
  a video media type has lost \<open>video\<close>.
\<close>

theorem buildRequests_frame_counterexample:
  "(case buildRequests (\<lambda>s. NaN) (\<lambda>bs. None) (Inr JNull) [video_bid] JUndefined of
      Inl e \<Rightarrow> []
    | Inr r \<Rightarrow> map (\<lambda>b. lookup (props b) ''mediaTypes'') (snd r))
     = [JObj [(''banner'', JObj [])]]
   \<and> lookup (props video_bid) ''mediaTypes''
     = JObj [(''banner'', JObj []), (''video'', JObj [(''context'', JStr ''instream'')])]"
  by (simp add: buildRequests_def buildRequest_def getBidFloor_def video_bid_def Let_def
      lookup_def remove_def getHostname_def)

theorem buildRequests_frame_witness:
  "(case buildRequests (\<lambda>s. NaN) (\<lambda>bs. None) (Inr JNull) [video_bid] JUndefined of
      Inl e \<Rightarrow> []
    | Inr r \<Rightarrow> map props (snd r))
     = [[(''bidId'', JStr ''1''), (''sizes'', JArr [JArr [JNum (Fin 300), JNum (Fin 250)]]),
         (''params'', JObj [(''accountId'', JStr ''a''), (''placementId'', JStr ''p''),
                            (''bidfloor'', JUndefined)]),
         (''mediaTypes'', JObj [(''banner'', JObj [])])]]
   \<and> same_but_floor_and_video (\<lambda>s. NaN) video_bid
       \<lparr>props = [(''bidId'', JStr ''1''), (''sizes'', JArr [JArr [JNum (Fin 300), JNum (Fin 250)]]),
         (''params'', JObj [(''accountId'', JStr ''a''), (''placementId'', JStr ''p''),
                            (''bidfloor'', JUndefined)]),
         (''mediaTypes'', JObj [(''banner'', JObj [])])], getFloor = None\<rparr>"
proof -
  have valid: "(\<lambda>bs. None) [video_bid] = None
      \<and> (\<forall>b \<in> set [video_bid]. orbidder_isBidRequestValid (JObj (props b)) = Inr True)"
    by (simp add: video_bid_def orbidder_isBidRequestValid_def lookup_def Let_def)
  from buildRequests_frame [of "\<lambda>s. NaN" "\<lambda>bs. None" "Inr JNull" "[video_bid]" JUndefined,
      THEN conjunct2, THEN mp, OF valid]
  obtain reqs bids' where
    r: "buildRequests (\<lambda>s. NaN) (\<lambda>bs. None) (Inr JNull) [video_bid] JUndefined = Inr (reqs, bids')"
    by auto
  have eq: "bids' = [\<lparr>props = [(''bidId'', JStr ''1''),
         (''sizes'', JArr [JArr [JNum (Fin 300), JNum (Fin 250)]]),
         (''params'', JObj [(''accountId'', JStr ''a''), (''placementId'', JStr ''p''),
                            (''bidfloor'', JUndefined)]),
         (''mediaTypes'', JObj [(''banner'', JObj [])])], getFloor = None\<rparr>]"
    using r
    by (simp add: buildRequests_def buildRequest_def getBidFloor_def video_bid_def Let_def
      lookup_def remove_def getHostname_def)
  from buildRequests_frame [of "\<lambda>s. NaN" "\<lambda>bs. None" "Inr JNull" "[video_bid]" JUndefined,
      THEN conjunct1, THEN spec, THEN spec, THEN mp, OF r]
  have "list_all2 (same_but_floor_and_video (\<lambda>s. NaN)) [video_bid] bids'"
    by simp
  then show ?thesis
    unfolding r eq by simp
qed

subsection \<open>User syncs\<close>

lemma hex_digit_mem: "d < 16 \<Longrightarrow> hex_digit d \<in> set ''0123456789ABCDEF''"
  unfolding hex_digit_def by (rule nth_mem) simp

lemma hex_digit_safe: "d < 16 \<Longrightarrow> hex_digit d \<noteq> CHR ''&'' \<and> hex_digit d \<noteq> CHR ''=''"
  using hex_digit_mem [of d] by auto

lemma percent_safe:
  "byte < 256 \<Longrightarrow> x \<in> set (percent byte) \<Longrightarrow> x \<noteq> CHR ''&'' \<and> x \<noteq> CHR ''=''"
proof -
  assume b: "byte < 256" and x: "x \<in> set (percent byte)"
  from b have "byte div 16 < 16" by simp
  then have hi: "hex_digit (byte div 16) \<noteq> CHR ''&'' \<and> hex_digit (byte div 16) \<noteq> CHR ''=''"
    by (rule hex_digit_safe)
  have lo: "hex_digit (byte mod 16) \<noteq> CHR ''&'' \<and> hex_digit (byte mod 16) \<noteq> CHR ''=''"
    by (rule hex_digit_safe) simp
  from x hi lo show ?thesis
    by (auto simp add: percent_def)
qed

lemma unreserved_safe: "unreserved c \<Longrightarrow> c \<noteq> CHR ''&'' \<and> c \<noteq> CHR ''=''"
  by (auto simp add: unreserved_def)

lemma of_char_less: "(of_char c :: nat) < 256"
  by (cases c) (simp add: of_char_def)

lemma encode_char_safe: "x \<in> set (encode_char c) \<Longrightarrow> x \<noteq> CHR ''&'' \<and> x \<noteq> CHR ''=''"
proof -
  assume x: "x \<in> set (encode_char c)"
  let ?n = "of_char c :: nat"
  have n: "?n < 256" by (rule of_char_less)
  consider (keep) "unreserved c" | (one) "\<not> unreserved c" "?n < 128"
    | (two) "\<not> unreserved c" "\<not> ?n < 128"
    by blast
  then show ?thesis
  proof cases
    case keep
    with x show ?thesis
      using unreserved_safe [of c] by (simp add: encode_char_def)
  next
    case one
    with x have "x \<in> set (percent ?n)" by (simp add: encode_char_def)
    then show ?thesis using percent_safe n by blast
  next
    case two
    with x have "x \<in> set (percent (192 + ?n div 64)) \<or> x \<in> set (percent (128 + ?n mod 64))"
      by (simp add: encode_char_def Let_def)
    moreover have "192 + ?n div 64 < 256" using n by linarith
    moreover have "128 + ?n mod 64 < 256" by simp
    ultimately show ?thesis using percent_safe by blast
  qed
qed

lemma encodeURIComponent_safe:
  "CHR ''&'' \<notin> set (encodeURIComponent s) \<and> CHR ''='' \<notin> set (encodeURIComponent s)"
  using encode_char_safe by (fastforce simp add: encodeURIComponent_def)

lemma split_on_none: "c \<notin> set a \<Longrightarrow> split_on c a = [a]"
  by (induction a) auto

lemma split_on_append: "c \<notin> set a \<Longrightarrow> split_on c (a @ c # b) = a # split_on c b"
  by (induction a) auto

lemma query_params_sync:
  assumes "CHR ''&'' \<notin> set v1 \<and> CHR ''&'' \<notin> set v2 \<and> CHR ''&'' \<notin> set v3 \<and> CHR ''&'' \<notin> set v4"
  shows "query_params (''?cid='' @ v1 @ ''&gdpr='' @ v2 @ ''&gdpr_consent='' @ v3
            @ ''&us_privacy='' @ v4)
         = [(''cid'', v1), (''gdpr'', v2), (''gdpr_consent'', v3), (''us_privacy'', v4)]"
  using assms by (simp add: query_params_def split_on_append split_on_none)

lemma query_params_sync_gpp:
  assumes "CHR ''&'' \<notin> set v1 \<and> CHR ''&'' \<notin> set v2 \<and> CHR ''&'' \<notin> set v3 \<and> CHR ''&'' \<notin> set v4
      \<and> CHR ''&'' \<notin> set v5 \<and> CHR ''&'' \<notin> set v6"
  shows "query_params ((''?cid='' @ v1 @ ''&gdpr='' @ v2 @ ''&gdpr_consent='' @ v3
            @ ''&us_privacy='' @ v4) @ ''&gpp='' @ v5 @ ''&gpp_sid='' @ v6)
         = [(''cid'', v1), (''gdpr'', v2), (''gdpr_consent'', v3), (''us_privacy'', v4),
            (''gpp'', v5), (''gpp_sid'', v6)]"
  using assms by (simp add: query_params_def split_on_append split_on_none)

lemma list_ex_strict_eq_string:
  "\<forall>y \<in> set seen. \<exists>s. y = JStr s \<Longrightarrow> list_ex (\<lambda>y. strict_eq y (JStr s)) seen = (JStr s \<in> set seen)"
  by (induction seen) (auto simp add: list_ex_iff)

lemma uniques_from_strings:
  "\<forall>x \<in> set xs. \<exists>s. x = JStr s \<Longrightarrow> \<forall>y \<in> set seen. \<exists>s. y = JStr s \<Longrightarrow>
   distinct (uniques_from seen xs) \<and> set (uniques_from seen xs) = set xs - set seen"
proof (induction xs arbitrary: seen)
  case Nil
  then show ?case by simp
next
  case (Cons x xs)
  then obtain s where s: "x = JStr s" by auto
  have seen': "\<forall>y \<in> set (seen @ [x]). \<exists>s. y = JStr s"
    using Cons.prems by auto
  have IH: "distinct (uniques_from (seen @ [x]) xs)
      \<and> set (uniques_from (seen @ [x]) xs) = set xs - set (seen @ [x])"
    using Cons.prems seen' by (intro Cons.IH) auto
  show ?case
    using IH list_ex_strict_eq_string [OF Cons.prems(2), of s]
    by (auto simp add: s)
qed

lemma uniques_strings:
  "\<forall>x \<in> set xs. \<exists>s. x = JStr s \<Longrightarrow> distinct (uniques xs) \<and> set (uniques xs) = set xs"
  using uniques_from_strings [of xs "[]"] by (simp add: uniques_def)

lemma cidArr_campaign_ids:
  "uniques (map (\<lambda>resp. read_opt (read_opt resp ''body'') ''cid'')
       (filter (\<lambda>resp. truthy (deepAccess resp [''body'', ''cid''])) responses))
   = campaign_ids responses"
proof -
  have "map (\<lambda>resp. read_opt (read_opt resp ''body'') ''cid'')
       (filter (\<lambda>resp. truthy (deepAccess resp [''body'', ''cid''])) responses)
     = filter truthy (map (\<lambda>resp. deepAccess resp [''body'', ''cid'']) responses)"
    by (induction responses) (auto split: if_splits)
  then show ?thesis by (simp add: campaign_ids_def)
qed

lemma thenE_read_prop: "thenE (read_prop v k) f = Inr r \<Longrightarrow> f (read_opt v k) = Inr r"
  by (cases v) (simp_all add: read_opt_def)

lemma thenE_guarded_read:
  "thenE (if b then read_prop v k else Inr JUndefined) f = Inr r \<Longrightarrow>
   f (if b then read_opt v k else JUndefined) = Inr r"
  by (cases b) (simp_all add: thenE_read_prop)

lemma read_opt_default_object: "read_opt (if v = JUndefined then JObj [] else v) k = read_opt v k"
  by (simp add: read_opt_def lookup_def)

lemma or_empty_default:
  "ToString (if truthy (if v = JUndefined then JStr [] else v)
             then (if v = JUndefined then JStr [] else v) else JStr []) = or_empty v"
  by (simp add: or_empty_def)

lemma truthy_length: "truthy (read_opt (JArr xs) ''length'') = (xs \<noteq> [])"
  by (simp add: read_opt_def)

lemma options_default:
  "k = ''iframeSyncUrl'' \<or> k = ''imageSyncUrl'' \<Longrightarrow>
   truthy (read_opt (if v = JUndefined
                     then JObj [(''iframeSyncUrl'', JStr []), (''imageSyncUrl'', JStr [])]
                     else v) k) = truthy (read_opt v k)
   \<and> (v \<noteq> JUndefined \<longrightarrow>
        read_opt (if v = JUndefined
                     then JObj [(''iframeSyncUrl'', JStr []), (''imageSyncUrl'', JStr [])]
                     else v) k = read_opt v k)"
  by (auto simp add: read_opt_def lookup_def)

lemma getUserSyncs_Inr:
  assumes "createUserSyncGetter options syncOptions responses gdprConsent uspConsent gppConsent
             = Inr syncs"
  shows "\<exists>q. syncs =
        (if truthy (read_opt syncOptions ''iframeEnabled'')
            \<and> truthy (read_opt options ''iframeSyncUrl'')
         then [\<lparr>sync_type = ''iframe'',
                sync_url = ToString (read_opt options ''iframeSyncUrl'') @ ''/'' @ q\<rparr>]
         else [])
        @ (if truthy (read_opt syncOptions ''pixelEnabled'')
              \<and> truthy (read_opt options ''imageSyncUrl'')
           then [\<lparr>sync_type = ''image'',
                  sync_url = ToString (read_opt options ''imageSyncUrl'') @ ''/'' @ q\<rparr>]
           else [])
      \<and> query_params q = sync_query_params responses gdprConsent uspConsent gppConsent"
proof -
  let ?ie = "read_opt syncOptions ''iframeEnabled''"
  let ?pe = "read_opt syncOptions ''pixelEnabled''"
  let ?gs = "read_opt gppConsent ''gppString''"
  let ?as = "read_opt gppConsent ''applicableSections''"
  let ?opts = "if options = JUndefined
               then JObj [(''iframeSyncUrl'', JStr []), (''imageSyncUrl'', JStr [])]
               else options"
  let ?v1 = "encodeURIComponent (ToString (JArr (campaign_ids responses)))"
  let ?v2 = "if truthy (read_opt gdprConsent ''gdprApplies'') then ''1'' else ''0''"
  let ?v3 = "encodeURIComponent (or_empty (read_opt gdprConsent ''consentString''))"
  let ?v4 = "encodeURIComponent (or_empty uspConsent)"
  let ?p0 = "''?cid='' @ ?v1 @ ''&gdpr='' @ ?v2 @ ''&gdpr_consent='' @ ?v3 @ ''&us_privacy='' @ ?v4"
  let ?rest = "\<lambda>params.
       thenE (if truthy ?ie then read_prop ?opts ''iframeSyncUrl'' else Inr JUndefined)
        (\<lambda>iframeSyncUrl.
       thenE (if truthy ?pe then read_prop ?opts ''imageSyncUrl'' else Inr JUndefined)
        (\<lambda>imageSyncUrl.
          Inr ((if truthy ?ie \<and> truthy iframeSyncUrl
                then [\<lparr>sync_type = ''iframe'',
                       sync_url = ToString iframeSyncUrl @ ''/'' @ params\<rparr>]
                else [])
               @ (if truthy ?pe \<and> truthy imageSyncUrl
                  then [\<lparr>sync_type = ''image'',
                         sync_url = ToString imageSyncUrl @ ''/'' @ params\<rparr>]
                  else []))))"
  have safe: "CHR ''&'' \<notin> set ?v1 \<and> CHR ''&'' \<notin> set ?v2 \<and> CHR ''&'' \<notin> set ?v3
      \<and> CHR ''&'' \<notin> set ?v4"
    using encodeURIComponent_safe by simp
  from assms have
    "thenE (if truthy ?gs \<and> truthy (read_opt ?as ''length'')
            then (case ?as of
                    JArr sections \<Rightarrow>
                      Inr (?p0 @ ''&gpp='' @ encodeURIComponent (ToString ?gs)
                           @ ''&gpp_sid='' @ encodeURIComponent (ToString (JArr sections)))
                  | _ \<Rightarrow> Inl TypeError)
            else Inr ?p0) ?rest = Inr syncs"
    apply (simp only: createUserSyncGetter_def Let_def)
    apply (drule thenE_read_prop)+
    apply (simp only: read_opt_default_object or_empty_default cidArr_campaign_ids)
    done
  then obtain q where q: "?rest q = Inr syncs"
    and qp: "query_params q = sync_query_params responses gdprConsent uspConsent gppConsent"
  proof (cases "truthy ?gs \<and> truthy (read_opt ?as ''length'')")
    case False
    assume run: "thenE (if truthy ?gs \<and> truthy (read_opt ?as ''length'')
            then (case ?as of
                    JArr sections \<Rightarrow>
                      Inr (?p0 @ ''&gpp='' @ encodeURIComponent (ToString ?gs)
                           @ ''&gpp_sid='' @ encodeURIComponent (ToString (JArr sections)))
                  | _ \<Rightarrow> Inl TypeError)
            else Inr ?p0) ?rest = Inr syncs"
      and that: "\<And>q. ?rest q = Inr syncs \<Longrightarrow>
        query_params q = sync_query_params responses gdprConsent uspConsent gppConsent \<Longrightarrow> thesis"
    from False have nogpp: "\<not> (truthy ?gs \<and> (\<exists>sections. ?as = JArr sections \<and> sections \<noteq> []))"
      by (auto simp add: truthy_length)
    have "query_params ?p0 = sync_query_params responses gdprConsent uspConsent gppConsent"
      unfolding sync_query_params_def query_params_sync [OF safe] using nogpp by simp
    moreover have "?rest ?p0 = Inr syncs"
    proof -
      from False have c: "(truthy ?gs \<and> truthy (read_opt ?as ''length'')) = False"
        by simp
      from run show ?thesis
        by (simp only: c if_False thenE_Inr)
    qed
    ultimately show thesis by (rule that [rotated])
  next
    case True
    assume run: "thenE (if truthy ?gs \<and> truthy (read_opt ?as ''length'')
            then (case ?as of
                    JArr sections \<Rightarrow>
                      Inr (?p0 @ ''&gpp='' @ encodeURIComponent (ToString ?gs)
                           @ ''&gpp_sid='' @ encodeURIComponent (ToString (JArr sections)))
                  | _ \<Rightarrow> Inl TypeError)
            else Inr ?p0) ?rest = Inr syncs"
      and that: "\<And>q. ?rest q = Inr syncs \<Longrightarrow>
        query_params q = sync_query_params responses gdprConsent uspConsent gppConsent \<Longrightarrow> thesis"
    from run True obtain sections where sec: "?as = JArr sections"
      by (cases ?as) simp_all
    let ?v5 = "encodeURIComponent (ToString ?gs)"
    let ?v6 = "encodeURIComponent (ToString (JArr sections))"
    have ne: "sections \<noteq> []"
      using True by (simp add: sec truthy_length)
    have safe6: "CHR ''&'' \<notin> set ?v1 \<and> CHR ''&'' \<notin> set ?v2 \<and> CHR ''&'' \<notin> set ?v3
      \<and> CHR ''&'' \<notin> set ?v4 \<and> CHR ''&'' \<notin> set ?v5 \<and> CHR ''&'' \<notin> set ?v6"
      using encodeURIComponent_safe by simp
    have "query_params (?p0 @ ''&gpp='' @ ?v5 @ ''&gpp_sid='' @ ?v6)
        = sync_query_params responses gdprConsent uspConsent gppConsent"
      unfolding sync_query_params_def query_params_sync_gpp [OF safe6]
      using True ne by (simp add: sec)
    moreover have "?rest (?p0 @ ''&gpp='' @ ?v5 @ ''&gpp_sid='' @ ?v6) = Inr syncs"
    proof -
      from True have c: "(truthy ?gs \<and> truthy (read_opt ?as ''length'')) = True"
        by simp
      from run have "thenE (case ?as of
                    JArr sections \<Rightarrow>
                      Inr (?p0 @ ''&gpp='' @ encodeURIComponent (ToString ?gs)
                           @ ''&gpp_sid='' @ encodeURIComponent (ToString (JArr sections)))
                  | _ \<Rightarrow> Inl TypeError) ?rest = Inr syncs"
        by (simp only: c if_True)
      then show ?thesis
        by (simp only: sec jsval.case thenE_Inr)
    qed
    ultimately show thesis by (rule that [rotated])
  qed
  from q have "syncs =
        (if truthy ?ie \<and> truthy (read_opt options ''iframeSyncUrl'')
         then [\<lparr>sync_type = ''iframe'',
                sync_url = ToString (read_opt options ''iframeSyncUrl'') @ ''/'' @ q\<rparr>]
         else [])
        @ (if truthy ?pe \<and> truthy (read_opt options ''imageSyncUrl'')
           then [\<lparr>sync_type = ''image'',
                  sync_url = ToString (read_opt options ''imageSyncUrl'') @ ''/'' @ q\<rparr>]
           else [])"
    apply (drule_tac thenE_guarded_read)
    apply (drule_tac thenE_guarded_read)
    using options_default [of "''iframeSyncUrl''" options]
      options_default [of "''imageSyncUrl''" options]
    apply (cases "options = JUndefined")
     apply (auto simp add: read_opt_def lookup_def)
    done
  with qp show ?thesis by blast
qed

lemma getUserSyncs_total:
  assumes "\<not> nullish syncOptions" "options \<noteq> JNull" "gdprConsent \<noteq> JNull" "gppConsent \<noteq> JNull"
    "isArray (read_opt gppConsent ''applicableSections'')
     \<or> \<not> truthy (read_opt (read_opt gppConsent ''applicableSections'') ''length'')"
  shows "\<exists>syncs. createUserSyncGetter options syncOptions responses gdprConsent uspConsent gppConsent
             = Inr syncs"
proof -
  let ?opts = "if options = JUndefined
               then JObj [(''iframeSyncUrl'', JStr []), (''imageSyncUrl'', JStr [])]
               else options"
  let ?gdpr = "if gdprConsent = JUndefined then JObj [] else gdprConsent"
  let ?gpp = "if gppConsent = JUndefined then JObj [] else gppConsent"
  have o: "read_prop ?opts k = Inr (read_opt ?opts k)" for k
    using assms(2) by (intro read_prop_not_nullish) (simp add: nullish_def)
  have g: "read_prop ?gdpr k = Inr (read_opt gdprConsent k)" for k
    using assms(3) read_prop_not_nullish [of ?gdpr k]
    by (simp add: nullish_def read_opt_default_object del: read_opt_JObj)
  have p: "read_prop ?gpp k = Inr (read_opt gppConsent k)" for k
    using assms(4) read_prop_not_nullish [of ?gpp k]
    by (simp add: nullish_def read_opt_default_object del: read_opt_JObj)
  have s: "read_prop syncOptions k = Inr (read_opt syncOptions k)" for k
    using assms(1) by (rule read_prop_not_nullish)
  show ?thesis
    unfolding createUserSyncGetter_def Let_def s g p
    using assms(5)
    by (cases "read_opt gppConsent ''applicableSections''") (auto simp add: o)
qed

text \<open>
  C8. Whenever the user-sync getter returns, it returns an iframe descriptor exactly
  when \<open>iframeEnabled\<close> is truthy and an iframe URL is configured, followed by an image
  descriptor exactly when \<open>pixelEnabled\<close> is truthy and an image URL is configured. Each
  URL is the configured URL, a slash and one and the same query string, which read
  back as a query string carries \<open>cid\<close> (the deduplicated campaign ids joined by
  commas), \<open>gdpr\<close> (0 or 1), \<open>gdpr_consent\<close> and \<open>us_privacy\<close>, and carries \<open>gpp\<close> and
  \<open>gpp_sid\<close> exactly when there is a GPP string and a non-empty list of applicable
  sections. The getter returns on every input whose objects are not \<open>null\<close> and whose
  applicable sections, if they have a truthy length, are an array. Campaign ids that
  are strings come out without repetition.
\<close>

theorem getUserSyncs_descriptors:
  "(\<forall>syncs. createUserSyncGetter options syncOptions responses gdprConsent uspConsent gppConsent
        = Inr syncs \<longrightarrow>
      (\<exists>q. syncs =
          (if truthy (read_opt syncOptions ''iframeEnabled'')
              \<and> truthy (read_opt options ''iframeSyncUrl'')
           then [\<lparr>sync_type = ''iframe'',
                  sync_url = ToString (read_opt options ''iframeSyncUrl'') @ ''/'' @ q\<rparr>]
           else [])
          @ (if truthy (read_opt syncOptions ''pixelEnabled'')
                \<and> truthy (read_opt options ''imageSyncUrl'')
             then [\<lparr>sync_type = ''image'',
                    sync_url = ToString (read_opt options ''imageSyncUrl'') @ ''/'' @ q\<rparr>]
             else [])
        \<and> query_params q = sync_query_params responses gdprConsent uspConsent gppConsent))
   \<and> (\<not> nullish syncOptions \<and> options \<noteq> JNull \<and> gdprConsent \<noteq> JNull \<and> gppConsent \<noteq> JNull
        \<and> (isArray (read_opt gppConsent ''applicableSections'')
             \<or> \<not> truthy (read_opt (read_opt gppConsent ''applicableSections'') ''length'')) \<longrightarrow>
      (\<exists>syncs. createUserSyncGetter options syncOptions responses gdprConsent uspConsent gppConsent
         = Inr syncs))
   \<and> ((\<forall>x \<in> set (filter truthy (map (\<lambda>resp. deepAccess resp [''body'', ''cid'']) responses)).
          \<exists>s. x = JStr s) \<longrightarrow>
        distinct (campaign_ids responses)
        \<and> set (campaign_ids responses)
            = set (filter truthy (map (\<lambda>resp. deepAccess resp [''body'', ''cid'']) responses)))"
proof (intro conjI allI impI)
  fix syncs
  assume "createUserSyncGetter options syncOptions responses gdprConsent uspConsent gppConsent
        = Inr syncs"
  then show "\<exists>q. syncs =
          (if truthy (read_opt syncOptions ''iframeEnabled'')
              \<and> truthy (read_opt options ''iframeSyncUrl'')
           then [\<lparr>sync_type = ''iframe'',
                  sync_url = ToString (read_opt options ''iframeSyncUrl'') @ ''/'' @ q\<rparr>]
           else [])
          @ (if truthy (read_opt syncOptions ''pixelEnabled'')
                \<and> truthy (read_opt options ''imageSyncUrl'')
             then [\<lparr>sync_type = ''image'',
                    sync_url = ToString (read_opt options ''imageSyncUrl'') @ ''/'' @ q\<rparr>]
             else [])
        \<and> query_params q = sync_query_params responses gdprConsent uspConsent gppConsent"
    by (rule getUserSyncs_Inr)
next
  assume "\<not> nullish syncOptions \<and> options \<noteq> JNull \<and> gdprConsent \<noteq> JNull \<and> gppConsent \<noteq> JNull
        \<and> (isArray (read_opt gppConsent ''applicableSections'')
             \<or> \<not> truthy (read_opt (read_opt gppConsent ''applicableSections'') ''length''))"
  then show "\<exists>syncs. createUserSyncGetter options syncOptions responses gdprConsent uspConsent
         gppConsent = Inr syncs"
    by (intro getUserSyncs_total) simp_all
next
  assume "\<forall>x \<in> set (filter truthy (map (\<lambda>resp. deepAccess resp [''body'', ''cid'']) responses)).
          \<exists>s. x = JStr s"
  then have "distinct (campaign_ids responses)
        \<and> set (campaign_ids responses)
            = set (filter truthy (map (\<lambda>resp. deepAccess resp [''body'', ''cid'']) responses))"
    unfolding campaign_ids_def by (rule uniques_strings)
  then show "distinct (campaign_ids responses)"
    and "set (campaign_ids responses)
            = set (filter truthy (map (\<lambda>resp. deepAccess resp [''body'', ''cid'']) responses))"
    by simp_all
qed

theorem getUserSyncs_descriptors_witness:
  "createUserSyncGetter example_options
     (JObj [(''iframeEnabled'', JBool False), (''pixelEnabled'', JBool True)])
     example_responses
     (JObj [(''gdprApplies'', JBool True), (''consentString'', JStr ''abc=='')])
     (JStr ''1YNN'')
     (JObj [(''gppString'', JStr ''DBAA''), (''applicableSections'', JArr [])])
   = Inr [\<lparr>sync_type = ''image'',
      sync_url = ''https://sync.example.com/api/sync/image/?cid=c1%2Cc%202&gdpr=1&gdpr_consent=abc%3D%3D&us_privacy=1YNN''\<rparr>]
   \<and> query_params ''?cid=c1%2Cc%202&gdpr=1&gdpr_consent=abc%3D%3D&us_privacy=1YNN''
     = [(''cid'', ''c1%2Cc%202''), (''gdpr'', ''1''), (''gdpr_consent'', ''abc%3D%3D''),
        (''us_privacy'', ''1YNN'')]
   \<and> campaign_ids example_responses = [JStr ''c1'', JStr ''c 2'']"
proof -
  let ?so = "JObj [(''iframeEnabled'', JBool False), (''pixelEnabled'', JBool True)]"
  let ?gdpr = "JObj [(''gdprApplies'', JBool True), (''consentString'', JStr ''abc=='')]"
  let ?gpp = "JObj [(''gppString'', JStr ''DBAA''), (''applicableSections'', JArr [])]"
  let ?q = "''?cid=c1%2Cc%202&gdpr=1&gdpr_consent=abc%3D%3D&us_privacy=1YNN''"
  have ok: "\<not> nullish ?so \<and> example_options \<noteq> JNull \<and> ?gdpr \<noteq> JNull \<and> ?gpp \<noteq> JNull
        \<and> (isArray (read_opt ?gpp ''applicableSections'')
             \<or> \<not> truthy (read_opt (read_opt ?gpp ''applicableSections'') ''length''))"
    by (simp add: nullish_def example_options_def lookup_def)
  from getUserSyncs_descriptors [of example_options ?so example_responses ?gdpr "JStr ''1YNN''" ?gpp,
      THEN conjunct2, THEN conjunct1, THEN mp, OF ok]
  obtain syncs where run: "createUserSyncGetter example_options ?so example_responses ?gdpr
      (JStr ''1YNN'') ?gpp = Inr syncs"
    by blast
  from getUserSyncs_descriptors [of example_options ?so example_responses ?gdpr "JStr ''1YNN''" ?gpp,
      THEN conjunct1, THEN spec, THEN mp, OF run]
  obtain q where syncs: "syncs = [\<lparr>sync_type = ''image'',
        sync_url = ''https://sync.example.com/api/sync/image/'' @ q\<rparr>]"
    and q: "query_params q = sync_query_params example_responses ?gdpr (JStr ''1YNN'') ?gpp"
    by (auto simp add: example_options_def lookup_def)
  have ids: "campaign_ids example_responses = [JStr ''c1'', JStr ''c 2'']"
    by (simp add: campaign_ids_def example_responses_def uniques_def lookup_def)
  have params: "sync_query_params example_responses ?gdpr (JStr ''1YNN'') ?gpp
      = [(''cid'', ''c1%2Cc%202''), (''gdpr'', ''1''), (''gdpr_consent'', ''abc%3D%3D''),
         (''us_privacy'', ''1YNN'')]"
    by (simp add: sync_query_params_def ids or_empty_def lookup_def encodeURIComponent_def
        encode_char_def unreserved_def percent_def hex_digit_def)
  have direct: "createUserSyncGetter example_options ?so example_responses ?gdpr
      (JStr ''1YNN'') ?gpp
     = Inr [\<lparr>sync_type = ''image'',
      sync_url = ''https://sync.example.com/api/sync/image/'' @ ?q\<rparr>]"
    by (simp add: createUserSyncGetter_def example_options_def example_responses_def Let_def
      lookup_def read_opt_def uniques_def encodeURIComponent_def encode_char_def unreserved_def
      percent_def hex_digit_def)
  from run syncs direct have "q = ?q"
    by simp
  with q params have "query_params ?q
      = [(''cid'', ''c1%2Cc%202''), (''gdpr'', ''1''), (''gdpr_consent'', ''abc%3D%3D''),
         (''us_privacy'', ''1YNN'')]"
    by simp
  with direct ids show ?thesis
    by simp
qed

subsection \<open>The string hash\<close>

lemma word_step:
  "(word_of_int (shl5 h - h + c) :: 32 word) = word_of_int (h * 31 + c)"
proof -
  have "(word_of_int (shl5 h - h + c) :: 32 word)
      = push_bit 5 (word_of_int h) - word_of_int h + word_of_int c"
    by (simp add: shl5_def)
  also have "\<dots> = word_of_int h * 31 + word_of_int c"
    by (simp add: push_bit_eq_mult)
  also have "\<dots> = word_of_int (h * 31 + c)"
    by simp
  finally show ?thesis .
qed

lemma hash_step_wrap32: "hash_step h c = wrap32 (h * 31 + c)"
proof -
  have "hash_step h c = sint (word_of_int (h * 31 + c) :: 32 word)"
    by (simp only: hash_step_def ToInt32_def word_step)
  also have "\<dots> = wrap32 (h * 31 + c)"
    by (simp only: int_word_sint wrap32_def) simp
  finally show ?thesis .
qed

lemma hash_loop_rolling31: "hash_loop h cs = rolling31 h cs"
  by (induction cs arbitrary: h) (simp_all add: hash_step_wrap32)

lemma wrap32_range: "- (2 ^ 31) \<le> wrap32 x \<and> wrap32 x < 2 ^ 31"
proof -
  have "0 \<le> (x + 2 ^ 31) mod 2 ^ 32" and "(x + 2 ^ 31) mod 2 ^ 32 < (2 ^ 32 :: int)"
    by simp_all
  then show ?thesis
    by (simp add: wrap32_def)
qed

lemma rolling31_range:
  "- (2 ^ 31) \<le> h \<and> h < 2 ^ 31 \<Longrightarrow> - (2 ^ 31) \<le> rolling31 h cs \<and> rolling31 h cs < 2 ^ 31"
proof (induction cs arbitrary: h)
  case Nil
  then show ?case by simp
next
  case (Cons c cs)
  have "- (2 ^ 31) \<le> rolling31 (wrap32 (h * 31 + c)) cs
      \<and> rolling31 (wrap32 (h * 31 + c)) cs < 2 ^ 31"
    by (rule Cons.IH) (rule wrap32_range)
  then show ?case by simp
qed

lemma dec_nat_digits: "dec_nat n \<noteq> [] \<and> set (dec_nat n) \<subseteq> set ''0123456789''"
proof (induction n rule: dec_nat.induct)
  case (1 n)
  have d: "d < 10 \<Longrightarrow> digit d \<in> set ''0123456789''" for d
    unfolding digit_def by (rule nth_mem) simp
  show ?case
  proof (cases "n < 10")
    case True
    then have eq: "dec_nat n = [digit n]"
      by (subst dec_nat.simps) simp
    have "digit n \<in> set ''0123456789''"
      using True by (rule d)
    then show ?thesis
      unfolding eq by simp
  next
    case False
    then have eq: "dec_nat n = dec_nat (n div 10) @ [digit (n mod 10)]"
      by (subst dec_nat.simps) simp
    have "digit (n mod 10) \<in> set ''0123456789''"
      by (rule d) simp
    moreover have "dec_nat (n div 10) \<noteq> [] \<and> set (dec_nat (n div 10)) \<subseteq> set ''0123456789''"
      using False by (rule "1")
    ultimately show ?thesis
      unfolding eq by simp
  qed
qed

lemma dec_int_digits: "dec_int i \<noteq> [] \<and> set (dec_int i) \<subseteq> set ''-0123456789''"
proof -
  have sub: "set ''0123456789'' \<subseteq> set ''-0123456789''"
    by (rule set_subset_Cons)
  have minus: "CHR ''-'' \<in> set ''-0123456789''"
    by (rule list.set_intros(1))
  have digits: "set (dec_nat m) \<subseteq> set ''-0123456789''" for m
    using dec_nat_digits [of m, THEN conjunct2] sub by (rule subset_trans)
  show ?thesis
  proof (cases "i < 0")
    case True
    then have eq: "dec_int i = CHR ''-'' # dec_nat (nat (- i))"
      by (simp add: dec_int_def)
    have "insert (CHR ''-'') (set (dec_nat (nat (- i)))) \<subseteq> set ''-0123456789''"
      using minus digits by (rule insert_subsetI)
    then have "set (dec_int i) \<subseteq> set ''-0123456789''"
      unfolding eq list.set(2) .
    moreover have "dec_int i \<noteq> []"
      unfolding eq by (rule list.distinct(2))
    ultimately show ?thesis by (rule conjI [rotated])
  next
    case False
    then have eq: "dec_int i = dec_nat (nat i)"
      by (simp add: dec_int_def)
    have "set (dec_int i) \<subseteq> set ''-0123456789''"
      unfolding eq by (rule digits)
    moreover have "dec_int i \<noteq> []"
      unfolding eq using dec_nat_digits [of "nat i"] by (rule conjunct1)
    ultimately show ?thesis by (rule conjI [rotated])
  qed
qed

text \<open>
  C6. For every string and every prefix, \<open>hashCode\<close> is the prefix followed by the
  decimal rendering (with a minus sign when negative) of the rolling hash
  \<open>h := h * 31 + charCode\<close>, wrapped to a 32-bit signed integer at every step and
  started at 0. This holds for every sequence of code units, and so for the strings
  of this model. The hash lies in the 32-bit signed range, and what follows the prefix
  is a non-empty string of digits and the sign. Being a function of the string and the
  prefix alone, two calls on the same string give the same token.
\<close>

theorem hashCode_is_rolling_hash_token:
  "hashCode_units cs prefix = prefix @ dec_int (rolling31 0 cs)
   \<and> hashCode s prefix = prefix @ dec_int (rolling31 0 (charCodes s))
   \<and> - (2 ^ 31) \<le> rolling31 0 cs \<and> rolling31 0 cs < 2 ^ 31
   \<and> dec_int (rolling31 0 cs) \<noteq> []
   \<and> set (dec_int (rolling31 0 cs)) \<subseteq> set ''-0123456789''"
proof -
  have gen: "hashCode_units us prefix = prefix @ dec_int (rolling31 0 us)" for us
    by (simp add: hashCode_units_def hash_loop_rolling31)
  have units: "hashCode_units cs prefix = prefix @ dec_int (rolling31 0 cs)"
    by (rule gen)
  have str: "hashCode s prefix = prefix @ dec_int (rolling31 0 (charCodes s))"
    unfolding hashCode_def by (rule gen)
  have range: "- (2 ^ 31) \<le> rolling31 0 cs \<and> rolling31 0 cs < 2 ^ 31"
    by (rule rolling31_range) simp
  show ?thesis
    using units str range dec_int_digits [of "rolling31 0 cs"]
    by (intro conjI) (erule conjunct1 conjunct2 | assumption)+
qed

theorem hashCode_is_rolling_hash_token_witness:
  "hashCode ''https://example.com/'' ''_'' = ''_-1856498399''
   \<and> rolling31 0 (charCodes ''https://example.com/'') = - 1856498399
   \<and> hashCode ''abc'' ''_'' = ''_96354''
   \<and> hashCode [] ''_'' = ''_0''
   \<and> hashCode_units [8364, 49] ''_'' = ''_259333''"
  using hashCode_is_rolling_hash_token
      [of "[]" "''_''" "''https://example.com/''", THEN conjunct2, THEN conjunct1]
    hashCode_is_rolling_hash_token [of "[]" "''_''" "''abc''", THEN conjunct2, THEN conjunct1]
    hashCode_is_rolling_hash_token [of "[]" "''_''" "[]", THEN conjunct2, THEN conjunct1]
    hashCode_is_rolling_hash_token [of "[8364, 49]" "''_''" "[]", THEN conjunct1]
  by (simp add: charCodes_def wrap32_def dec_int_def dec_nat.simps digit_def)

end
